theory Spec2Isabelle
  imports Complex_Main "HOL-Library.Multiset" "HOL-Library.Char_ord" "HOL-Library.List_Lexorder"
begin

section \<open>Values of the records\<close>

text \<open>
  The profit and loss engine (\<^verbatim>\<open>src/utils/plEngine.js\<close>) reads plain records. A numeric
  field is a number or absent (\<open>None\<close>: \<^verbatim>\<open>undefined\<close> or \<^verbatim>\<open>null\<close>); numbers are exact
  rationals, so the rounding of the runtime's binary floating point (doubles) is not part
  of the model: a statement that compares sums taken in two groupings carries the
  condition \<open>exact_amounts\<close> below, under which doubles add without rounding. A text
  field is \<^verbatim>\<open>undefined\<close>, \<^verbatim>\<open>null\<close> or a string.
\<close>

datatype jsstr = Undefined | Null | Str string

text \<open>Truthiness of a text field: only a non-empty string is truthy.\<close>

fun truthy :: "jsstr \<Rightarrow> bool" where
  "truthy (Str s) = (s \<noteq> [])"
| "truthy Undefined = False"
| "truthy Null = False"

text \<open>\<^verbatim>\<open>x || lbl\<close> on a text field.\<close>

definition str_or :: "jsstr \<Rightarrow> string \<Rightarrow> string" where
  "str_or x lbl = (if truthy x then (case x of Str s \<Rightarrow> s | _ \<Rightarrow> lbl) else lbl)"

text \<open>The property key a text field denotes when it indexes an object.\<close>

fun key_of :: "jsstr \<Rightarrow> string" where
  "key_of Undefined = ''undefined''"
| "key_of Null = ''null''"
| "key_of (Str s) = s"

text \<open>\<^verbatim>\<open>x || d\<close> on a numeric field: absent and \<open>0\<close> are both falsy.\<close>

definition num_or :: "rat option \<Rightarrow> rat \<Rightarrow> rat" where
  "num_or x d = (case x of None \<Rightarrow> d | Some v \<Rightarrow> if v = 0 then d else v)"

abbreviation num :: "rat option \<Rightarrow> rat" where
  "num x \<equiv> num_or x 0"

record sale =
  total_f :: "rat option"
  paid :: "rat option"
  balance :: "rat option"
  qty :: "rat option"
  costPrice :: "rat option"
  category :: jsstr
  customer :: jsstr
  method_f :: jsstr
  status :: jsstr
  dueDate :: jsstr
  date :: jsstr

record expense =
  exp_category :: jsstr
  amount :: "rat option"

record return_rec =
  refund :: "rat option"

record item =
  stock :: "rat option"
  reorderLevel :: "rat option"

text \<open>
  \<^verbatim>\<open>new Date()\<close>: the evaluation instant (milliseconds since the epoch) and the text
  \<^verbatim>\<open>toISOString()\<close> gives for it. Both clock reads of one call see the same instant.
\<close>

record jsdate =
  instant :: int
  iso :: string

section \<open>Objects used as dictionaries, and the array operations\<close>

text \<open>
  An object literal \<^verbatim>\<open>{}\<close> filled by assignment is a list of its own properties in the
  order of their creation. Besides them, \<^verbatim>\<open>o[k]\<close> finds the members that every object
  inherits from \<^verbatim>\<open>Object.prototype\<close>: eleven functions, and the accessor \<^verbatim>\<open>__proto__\<close>, whose
  value is the prototype itself. All twelve are truthy.
\<close>

type_synonym 'a obj = "(string \<times> 'a) list"

definition inherited_keys :: "string list" where
  "inherited_keys =
     [''constructor'', ''__defineGetter__'', ''__defineSetter__'', ''hasOwnProperty'',
      ''__lookupGetter__'', ''__lookupSetter__'', ''isPrototypeOf'', ''propertyIsEnumerable'',
      ''toString'', ''valueOf'', ''__proto__'', ''toLocaleString'']"

text \<open>
  Storing the property \<open>k\<close> of the object itself: an existing property keeps its place, a
  new one goes last. (The engine stores under \<^verbatim>\<open>__proto__\<close> only through \<open>obj_assign\<close>
  below.)
\<close>

fun obj_set :: "string \<Rightarrow> 'a \<Rightarrow> 'a obj \<Rightarrow> 'a obj" where
  "obj_set k v [] = [(k, v)]"
| "obj_set k v ((k', v') # d) = (if k' = k then (k, v) # d else (k', v') # obj_set k v d)"

text \<open>
  Whether \<^verbatim>\<open>o[k]\<close> is truthy, for an object whose own properties are group objects: the
  key is a property of the object itself, or an inherited member.
\<close>

definition obj_truthy :: "'a obj \<Rightarrow> string \<Rightarrow> bool" where
  "obj_truthy d k = (map_of d k \<noteq> None \<or> k \<in> set inherited_keys)"

text \<open>
  The values of \<^verbatim>\<open>o[k]\<close> for an object whose own properties are amounts or counts: a
  number; a string (once an inherited member has been added to, the property holds the
  source text of the member followed by the digits of the numbers; only that it is a
  non-empty string is kept); an inherited member; or nothing (\<^verbatim>\<open>undefined\<close>).
\<close>

datatype jsval = Num rat | Text | Inherited | Missing

definition obj_read :: "jsval obj \<Rightarrow> string \<Rightarrow> jsval" where
  "obj_read d k =
     (case map_of d k of
        Some v \<Rightarrow> v
      | None \<Rightarrow> if k \<in> set inherited_keys then Inherited else Missing)"

text \<open>
  \<^verbatim>\<open>(v || 0) + x\<close> for a number \<open>x\<close>: a number is added to; a string or an inherited
  member (a function or an object) is truthy and \<^verbatim>\<open>+\<close> concatenates, giving a string.
\<close>

fun or0_plus :: "jsval \<Rightarrow> rat \<Rightarrow> jsval" where
  "or0_plus (Num y) x = Num ((if y = 0 then 0 else y) + x)"
| "or0_plus Text x = Text"
| "or0_plus Inherited x = Text"
| "or0_plus Missing x = Num (0 + x)"

text \<open>
  \<^verbatim>\<open>o[k] = v\<close> for a number or a string \<open>v\<close>: the setter of \<^verbatim>\<open>__proto__\<close> ignores a value
  that is not an object, every other key is stored.
\<close>

definition obj_assign :: "string \<Rightarrow> jsval \<Rightarrow> jsval obj \<Rightarrow> jsval obj" where
  "obj_assign k v d = (if k = ''__proto__'' then d else obj_set k v d)"

text \<open>
  \<^verbatim>\<open>Object.entries\<close>: the keys that are array indices (canonical decimal numerals below
  \<open>2^32 - 1\<close>) come first, in ascending numeric order; the other keys follow in the order
  of their creation.
\<close>

definition is_digit :: "char \<Rightarrow> bool" where
  "is_digit c = (48 \<le> (of_char c :: nat) \<and> (of_char c :: nat) \<le> 57)"

definition dec_val :: "string \<Rightarrow> nat" where
  "dec_val s = foldl (\<lambda>n c. 10 * n + (of_char c - 48)) 0 s"

definition is_array_index :: "string \<Rightarrow> bool" where
  "is_array_index s =
     (s \<noteq> [] \<and> list_all is_digit s \<and> (if length s = 1 then True else hd s \<noteq> CHR ''0'')
      \<and> dec_val s < 2 ^ 32 - 1)"

definition entries :: "'a obj \<Rightarrow> (string \<times> 'a) list" where
  "entries d =
     sort_key (\<lambda>e. dec_val (fst e)) (filter (\<lambda>e. is_array_index (fst e)) d)
     @ filter (\<lambda>e. \<not> is_array_index (fst e)) d"

text \<open>
  \<^verbatim>\<open>Array.prototype.sort\<close> with a comparator: a stable sort; \<open>x\<close> goes before \<open>y\<close> when
  \<open>cmp x y \<le> 0\<close>.
\<close>

fun insert_by :: "('a \<Rightarrow> 'a \<Rightarrow> rat) \<Rightarrow> 'a \<Rightarrow> 'a list \<Rightarrow> 'a list" where
  "insert_by cmp x [] = [x]"
| "insert_by cmp x (y # ys) = (if cmp x y \<le> 0 then x # y # ys else y # insert_by cmp x ys)"

definition sort_by :: "('a \<Rightarrow> 'a \<Rightarrow> rat) \<Rightarrow> 'a list \<Rightarrow> 'a list" where
  "sort_by cmp xs = foldr (insert_by cmp) xs []"

text \<open>
  \<^verbatim>\<open>a.localeCompare(b)\<close>, as it orders the day strings: by code unit, which is how the
  runtime's collation orders the digits and hyphens of ISO dates.
\<close>

definition localeCompare :: "string \<Rightarrow> string \<Rightarrow> rat" where
  "localeCompare a b = (if a < b then - 1 else if a = b then 0 else 1)"

text \<open>
  \<^verbatim>\<open>x.toFixed(1)\<close> for magnitudes below \<open>10^21\<close>: the sign, then the nearest number of
  tenths (the larger one on a tie), written with one decimal.
\<close>

definition digit_char :: "nat \<Rightarrow> char" where
  "digit_char d =
     (if d = 0 then CHR ''0'' else if d = 1 then CHR ''1'' else if d = 2 then CHR ''2''
      else if d = 3 then CHR ''3'' else if d = 4 then CHR ''4'' else if d = 5 then CHR ''5''
      else if d = 6 then CHR ''6'' else if d = 7 then CHR ''7'' else if d = 8 then CHR ''8''
      else CHR ''9'')"

fun show_nat :: "nat \<Rightarrow> string" where
  "show_nat n = (if n < 10 then [digit_char n] else show_nat (n div 10) @ [digit_char (n mod 10)])"

declare show_nat.simps [simp del]

definition toFixed1 :: "rat \<Rightarrow> string" where
  "toFixed1 x =
     (let n = nat \<lfloor>\<bar>x\<bar> * 10 + 1 / 2\<rfloor>
      in (if x < 0 then ''-'' else []) @ show_nat (n div 10) @ ''.'' @ show_nat (n mod 10))"

section \<open>The profit and loss aggregator\<close>

subsection \<open>Result records\<close>

record cat_acc =
  c_revenue :: rat
  c_cogs :: rat
  c_profit :: rat
  c_qty :: rat
  c_count :: nat

record cat_row = cat_acc +
  c_name :: string
  c_margin :: string

record pm_row =
  pm_method :: string
  pm_amount :: jsval
  pm_pct :: string

record exp_row =
  x_category :: string
  x_amount :: jsval
  x_pct :: string

record cust_acc =
  u_revenue :: rat
  u_paid :: rat
  u_balance :: rat
  u_count :: nat

record cust_row = cust_acc +
  u_name :: string

record trend_acc =
  t_revenue :: rat
  t_profit :: rat

record trend_row = trend_acc +
  t_date :: string

record pl_result =
  revenue :: rat
  collected :: rat
  outstanding :: rat
  cogs :: rat
  grossProfit :: rat
  grossMargin :: string
  totalExpenses :: rat
  netProfit :: rat
  netMargin :: string
  collectionRate :: string
  refunds :: rat
  overdueDebt :: rat
  upcomingDebt :: rat
  salesCount :: nat
  uniqueCustomers :: nat
  unitsSold :: rat
  statusCounts :: "jsval obj"
  categoryBreakdown :: "cat_row list"
  paymentMethods :: "pm_row list"
  expenseBreakdown :: "exp_row list"
  topCustomers :: "cust_row list"
  dailyTrend :: "trend_row list"
  computedAt :: string

subsection \<open>Debt segmentation\<close>

text \<open>
  \<open>parseDate\<close> is the runtime's reading of a date string (\<^verbatim>\<open>new Date(str)\<close>): its time
  value, or \<open>None\<close> for an invalid date, which compares false with everything.
\<close>

definition isOverdue :: "(string \<Rightarrow> int option) \<Rightarrow> jsdate \<Rightarrow> sale \<Rightarrow> bool" where
  "isOverdue parseDate now s =
     (if status s = Str ''PAID'' then False
      else if \<not> truthy (dueDate s) then False
      else (case parseDate (key_of (dueDate s)) of
              None \<Rightarrow> False
            | Some t \<Rightarrow> t < instant now))"

subsection \<open>The grouping loops\<close>

definition cat_zero :: cat_acc where
  "cat_zero = \<lparr>c_revenue = 0, c_cogs = 0, c_profit = 0, c_qty = 0, c_count = 0\<rparr>"

definition cat_add :: "sale \<Rightarrow> cat_acc \<Rightarrow> cat_acc" where
  "cat_add s a =
     (let rev = num (total_f s);
          cost = num (qty s) * num (costPrice s)
      in \<lparr>c_revenue = c_revenue a + rev,
          c_cogs = c_cogs a + cost,
          c_profit = c_profit a + (rev - cost),
          c_qty = c_qty a + num (qty s),
          c_count = c_count a + 1\<rparr>)"

text \<open>
  One round of a grouping loop: \<^verbatim>\<open>if (!o[c]) o[c] = {zeros}\<close>, then the additions to the
  fields of \<^verbatim>\<open>o[c]\<close>. When \<open>c\<close> is not a property of the object itself but an inherited
  member, no group is made and the additions go to the fields of that member: the object
  stays as it is. (Those fields become not-a-number, which is falsy: the lookups of the
  engine, all of the form \<^verbatim>\<open>x || 0\<close> or \<^verbatim>\<open>!x\<close>, read them as absent.)
\<close>

definition cat_step :: "cat_acc obj \<Rightarrow> sale \<Rightarrow> cat_acc obj" where
  "cat_step d s =
     (let c = str_or (category s) ''Uncategorised'';
          d1 = (if \<not> obj_truthy d c then obj_set c cat_zero d else d)
      in case map_of d1 c of
           Some a \<Rightarrow> obj_set c (cat_add s a) d1
         | None \<Rightarrow> d1)"

definition categoryBreakdownObj :: "sale list \<Rightarrow> cat_acc obj" where
  "categoryBreakdownObj sales = foldl cat_step [] sales"

definition cat_cmp :: "string \<times> cat_acc \<Rightarrow> string \<times> cat_acc \<Rightarrow> rat" where
  "cat_cmp a b = c_revenue (snd b) - c_revenue (snd a)"

definition cat_to_row :: "string \<times> cat_acc \<Rightarrow> cat_row" where
  "cat_to_row e =
     (let d = snd e
      in \<lparr>c_revenue = c_revenue d, c_cogs = c_cogs d, c_profit = c_profit d, c_qty = c_qty d,
          c_count = c_count d, c_name = fst e,
          c_margin = (if c_revenue d > 0 then toFixed1 ((c_profit d / c_revenue d) * 100)
                      else ''0.0'')\<rparr>)"

definition categorySorted :: "sale list \<Rightarrow> cat_row list" where
  "categorySorted sales = map cat_to_row (sort_by cat_cmp (entries (categoryBreakdownObj sales)))"

definition pm_step :: "jsval obj \<Rightarrow> sale \<Rightarrow> jsval obj" where
  "pm_step d s =
     (let m = str_or (method_f s) ''Cash''
      in obj_assign m (or0_plus (obj_read d m) (num (paid s))) d)"

definition paymentMethodsObj :: "sale list \<Rightarrow> jsval obj" where
  "paymentMethodsObj sales = foldl pm_step [] sales"

text \<open>
  The comparator \<^verbatim>\<open>(a, b) => b[1] - a[1]\<close>: the difference of two numbers; with a string
  among them the difference is not a number, which the sort reads as \<open>0\<close>. (It is then
  not an order, and where the sort puts such an entry is the runtime's choice; the
  model's is that of \<open>sort_by\<close>.) The percentage of a string is the text \<^verbatim>\<open>NaN\<close>.
\<close>

definition amount_cmp :: "string \<times> jsval \<Rightarrow> string \<times> jsval \<Rightarrow> rat" where
  "amount_cmp a b = (case (snd b, snd a) of (Num y, Num x) \<Rightarrow> y - x | _ \<Rightarrow> 0)"

definition pct_of :: "jsval \<Rightarrow> rat \<Rightarrow> string" where
  "pct_of v t = (case v of Num x \<Rightarrow> toFixed1 ((x / t) * 100) | _ \<Rightarrow> ''NaN'')"

definition paymentMethodsSorted :: "rat \<Rightarrow> sale list \<Rightarrow> pm_row list" where
  "paymentMethodsSorted coll sales =
     map (\<lambda>e. \<lparr>pm_method = fst e, pm_amount = snd e,
                pm_pct = (if coll > 0 then pct_of (snd e) coll else ''0.0'')\<rparr>)
       (sort_by amount_cmp (entries (paymentMethodsObj sales)))"

definition exp_step :: "jsval obj \<Rightarrow> expense \<Rightarrow> jsval obj" where
  "exp_step d e =
     (let k = key_of (exp_category e)
      in obj_assign k (or0_plus (obj_read d k) (num (amount e))) d)"

definition expenseByCategory :: "expense list \<Rightarrow> jsval obj" where
  "expenseByCategory expenses = foldl exp_step [] expenses"

definition expenseSorted :: "rat \<Rightarrow> expense list \<Rightarrow> exp_row list" where
  "expenseSorted totalExp expenses =
     map (\<lambda>e. \<lparr>x_category = fst e, x_amount = snd e,
                x_pct = (if totalExp > 0 then pct_of (snd e) totalExp else ''0.0'')\<rparr>)
       (sort_by amount_cmp (entries (expenseByCategory expenses)))"

definition cust_zero :: cust_acc where
  "cust_zero = \<lparr>u_revenue = 0, u_paid = 0, u_balance = 0, u_count = 0\<rparr>"

definition cust_add :: "sale \<Rightarrow> cust_acc \<Rightarrow> cust_acc" where
  "cust_add s a =
     \<lparr>u_revenue = u_revenue a + num (total_f s),
      u_paid = u_paid a + num (paid s),
      u_balance = u_balance a + num (balance s),
      u_count = u_count a + 1\<rparr>"

definition cust_step :: "cust_acc obj \<Rightarrow> sale \<Rightarrow> cust_acc obj" where
  "cust_step d s =
     (let c = str_or (customer s) ''Walk-in'';
          d1 = (if \<not> obj_truthy d c then obj_set c cust_zero d else d)
      in case map_of d1 c of
           Some a \<Rightarrow> obj_set c (cust_add s a) d1
         | None \<Rightarrow> d1)"

definition customerRevenue :: "sale list \<Rightarrow> cust_acc obj" where
  "customerRevenue sales = foldl cust_step [] sales"

definition cust_cmp :: "string \<times> cust_acc \<Rightarrow> string \<times> cust_acc \<Rightarrow> rat" where
  "cust_cmp a b = u_revenue (snd b) - u_revenue (snd a)"

definition cust_to_row :: "string \<times> cust_acc \<Rightarrow> cust_row" where
  "cust_to_row e =
     (let d = snd e
      in \<lparr>u_revenue = u_revenue d, u_paid = u_paid d, u_balance = u_balance d,
          u_count = u_count d, u_name = fst e\<rparr>)"

definition topCustomersOf :: "sale list \<Rightarrow> cust_row list" where
  "topCustomersOf sales =
     map cust_to_row (take 10 (sort_by cust_cmp (entries (customerRevenue sales))))"

definition trend_zero :: trend_acc where
  "trend_zero = \<lparr>t_revenue = 0, t_profit = 0\<rparr>"

definition trend_add :: "sale \<Rightarrow> trend_acc \<Rightarrow> trend_acc" where
  "trend_add s a =
     \<lparr>t_revenue = t_revenue a + num (total_f s),
      t_profit = t_profit a + (num (total_f s) - num (qty s) * num (costPrice s))\<rparr>"

text \<open>The day of a sale: \<^verbatim>\<open>(s.date || '').slice(0, 10)\<close>.\<close>

definition day_of :: "sale \<Rightarrow> string" where
  "day_of s = take 10 (str_or (date s) [])"

definition trend_step :: "trend_acc obj \<Rightarrow> sale \<Rightarrow> trend_acc obj" where
  "trend_step d s =
     (let day = day_of s
      in if day \<noteq> []
         then (let d1 = (if \<not> obj_truthy d day then obj_set day trend_zero d else d)
               in case map_of d1 day of
                    Some a \<Rightarrow> obj_set day (trend_add s a) d1
                  | None \<Rightarrow> d1)
         else d)"

definition dailyTrendObj :: "sale list \<Rightarrow> trend_acc obj" where
  "dailyTrendObj sales = foldl trend_step [] sales"

definition trend_cmp :: "string \<times> trend_acc \<Rightarrow> string \<times> trend_acc \<Rightarrow> rat" where
  "trend_cmp a b = localeCompare (fst a) (fst b)"

definition trend_to_row :: "string \<times> trend_acc \<Rightarrow> trend_row" where
  "trend_to_row e = \<lparr>t_revenue = t_revenue (snd e), t_profit = t_profit (snd e), t_date = fst e\<rparr>"

definition trendSorted :: "sale list \<Rightarrow> trend_row list" where
  "trendSorted sales = map trend_to_row (sort_by trend_cmp (entries (dailyTrendObj sales)))"

definition status_init :: "jsval obj" where
  "status_init =
     [(''PAID'', Num 0), (''PARTIAL'', Num 0), (''UNPAID'', Num 0), (''OVERDUE'', Num 0)]"

definition status_step :: "jsval obj \<Rightarrow> sale \<Rightarrow> jsval obj" where
  "status_step d s =
     (let k = key_of (status s)
      in obj_assign k (or0_plus (obj_read d k) 1) d)"

definition statusCountsOf :: "sale list \<Rightarrow> jsval obj" where
  "statusCountsOf sales = foldl status_step status_init sales"

subsection \<open>computePL\<close>

text \<open>
  \<^verbatim>\<open>xs.reduce((s, r) => s + f(r), 0)\<close> is \<open>foldl (\<lambda>s r. s + f r) 0 xs\<close>. The settings
  argument is never read and is left out.
\<close>

definition computePL ::
  "(string \<Rightarrow> int option) \<Rightarrow> jsdate \<Rightarrow> sale list \<Rightarrow> expense list \<Rightarrow> return_rec list \<Rightarrow> pl_result"
where
  "computePL parseDate now sales expenses returns =
     (let rev = foldl (\<lambda>s r. s + num (total_f r)) 0 sales;
          coll = foldl (\<lambda>s r. s + num (paid r)) 0 sales;
          cgs = foldl (\<lambda>s r. s + num (qty r) * num (costPrice r)) 0 sales;
          grossP = rev - cgs;
          totalExp = foldl (\<lambda>s r. s + num (amount r)) 0 expenses;
          netP = grossP - totalExp;
          refs = foldl (\<lambda>s r. s + num (refund r)) 0 returns;
          outst = foldl (\<lambda>s r. s + num (balance r)) 0 sales;
          cr = (if rev > 0 then toFixed1 ((coll / rev) * 100) else ''0.0'');
          gm = (if rev > 0 then toFixed1 ((grossP / rev) * 100) else ''0.0'');
          nm = (if rev > 0 then toFixed1 ((netP / rev) * 100) else ''0.0'');
          od = foldl (\<lambda>s r. s + num (balance r)) 0
                 (filter (\<lambda>s. isOverdue parseDate now s \<and> num (balance s) > 0) sales);
          ud = foldl (\<lambda>s r. s + num (balance r)) 0
                 (filter (\<lambda>s. \<not> isOverdue parseDate now s \<and> status s \<noteq> Str ''PAID''
                              \<and> num (balance s) > 0) sales)
      in \<lparr>revenue = rev,
          collected = coll,
          outstanding = outst,
          cogs = cgs,
          grossProfit = grossP,
          grossMargin = gm,
          totalExpenses = totalExp,
          netProfit = netP,
          netMargin = nm,
          collectionRate = cr,
          refunds = refs,
          overdueDebt = od,
          upcomingDebt = ud,
          salesCount = length sales,
          uniqueCustomers = length (remdups (map customer sales)),
          unitsSold = foldl (\<lambda>s r. s + num (qty r)) 0 sales,
          statusCounts = statusCountsOf sales,
          categoryBreakdown = categorySorted sales,
          paymentMethods = paymentMethodsSorted coll sales,
          expenseBreakdown = expenseSorted totalExp expenses,
          topCustomers = topCustomersOf sales,
          dailyTrend = trendSorted sales,
          computedAt = iso now\<rparr>)"

section \<open>The dashboard aggregator\<close>

record kpi =
  k_todayRevenue :: rat
  k_todayProfit :: rat
  k_totalRevenue :: rat
  k_totalCollected :: rat
  k_totalBalance :: rat
  k_overdueCount :: nat
  k_lowStockCount :: nat
  k_outOfStockCount :: nat
  k_totalExpenses :: rat
  k_grossProfit :: rat
  k_netProfit :: rat
  k_grossMargin :: string
  k_netMargin :: string

definition computeDashboardKPIs ::
  "(string \<Rightarrow> int option) \<Rightarrow> jsdate \<Rightarrow> sale list \<Rightarrow> expense list \<Rightarrow> item list \<Rightarrow> kpi"
where
  "computeDashboardKPIs parseDate now sales expenses inventory =
     (let today = take 10 (iso now);
          todaySales = filter (\<lambda>s. day_of s = today) sales;
          todayRevenue = foldl (\<lambda>s r. s + num (total_f r)) 0 todaySales;
          todayProfit =
            foldl (\<lambda>s r. s + (num (total_f r) - num (qty r) * num (costPrice r))) 0 todaySales;
          totalRevenue = foldl (\<lambda>s r. s + num (total_f r)) 0 sales;
          totalCollected = foldl (\<lambda>s r. s + num (paid r)) 0 sales;
          totalBalance = foldl (\<lambda>s r. s + num (balance r)) 0 sales;
          overdueCount =
            length (filter (\<lambda>s.
              if status s = Str ''PAID'' then False
              else if \<not> truthy (dueDate s) then False
              else (case parseDate (key_of (dueDate s)) of
                      None \<Rightarrow> False
                    | Some t \<Rightarrow> t < instant now) \<and> num (balance s) > 0) sales);
          lowStockCount =
            length (filter (\<lambda>p. num (stock p) \<le> num_or (reorderLevel p) 5) inventory);
          outOfStockCount = length (filter (\<lambda>p. num (stock p) = 0) inventory);
          totalExp = foldl (\<lambda>s r. s + num (amount r)) 0 expenses;
          cgs = foldl (\<lambda>s r. s + num (qty r) * num (costPrice r)) 0 sales;
          grossP = totalRevenue - cgs;
          netP = grossP - totalExp
      in \<lparr>k_todayRevenue = todayRevenue,
          k_todayProfit = todayProfit,
          k_totalRevenue = totalRevenue,
          k_totalCollected = totalCollected,
          k_totalBalance = totalBalance,
          k_overdueCount = overdueCount,
          k_lowStockCount = lowStockCount,
          k_outOfStockCount = outOfStockCount,
          k_totalExpenses = totalExp,
          k_grossProfit = grossP,
          k_netProfit = netP,
          k_grossMargin =
            (if totalRevenue > 0 then toFixed1 ((grossP / totalRevenue) * 100) else ''0.0''),
          k_netMargin =
            (if totalRevenue > 0 then toFixed1 ((netP / totalRevenue) * 100) else ''0.0'')\<rparr>)"

section \<open>Example data\<close>

text \<open>
  A sale with every field absent (\<^verbatim>\<open>{}\<close>), the clock at the start of 1 June 2024 (UTC),
  and the reading of two ISO dates (midnight UTC, in milliseconds since the epoch).
\<close>

definition blank :: sale where
  "blank = \<lparr>total_f = None, paid = None, balance = None, qty = None, costPrice = None,
             category = Undefined, customer = Undefined, method_f = Undefined,
             status = Undefined, dueDate = Undefined, date = Undefined\<rparr>"

definition june_2024 :: jsdate where
  "june_2024 = \<lparr>instant = 1717200000000, iso = ''2024-06-01T00:00:00.000Z''\<rparr>"

definition read_date :: "string \<Rightarrow> int option" where
  "read_date s =
     (if s = ''2024-01-01'' then Some 1704067200000
      else if s = ''2030-01-01'' then Some 1893456000000
      else None)"

text \<open>Fifteen sales to fifteen customers, with fifteen different totals.\<close>

definition fifteen_sales :: "sale list" where
  "fifteen_sales =
     map (\<lambda>(c, t). blank\<lparr>customer := Str c, total_f := Some t, paid := Some 1\<rparr>)
       [(''Amina'', 70), (''Brian'', 150), (''Carol'', 20), (''David'', 110), (''Esther'', 40),
        (''Farid'', 130), (''Grace'', 10), (''Hatim'', 90), (''Irene'', 60), (''Jamil'', 140),
        (''Kato'', 30), (''Lydia'', 120), (''Musa'', 50), (''Nora'', 100), (''Okello'', 80)]"

section \<open>A grouping loop in general\<close>

text \<open>
  The loops as they run on keys that are not inherited members: look the group (or the
  amount) of the key up among the properties of the object itself, or start from the
  zero, add the record to it and store it back. The lemmas below relate the loops of the
  engine to this one.
\<close>

definition obj_get_or :: "'a \<Rightarrow> 'a obj \<Rightarrow> string \<Rightarrow> 'a" where
  "obj_get_or z d k = (case map_of d k of None \<Rightarrow> z | Some a \<Rightarrow> a)"

definition accum :: "('x \<Rightarrow> string) \<Rightarrow> ('x \<Rightarrow> 'a \<Rightarrow> 'a) \<Rightarrow> 'a \<Rightarrow> 'a obj \<Rightarrow> 'x \<Rightarrow> 'a obj" where
  "accum key upd z d x = obj_set (key x) (upd x (obj_get_or z d (key x))) d"

text \<open>
  The shape of the grouping loops (categories, customers, days) and of the adding loops
  (payment methods, expense categories, status counts) of the engine.
\<close>

definition group_step ::
  "('x \<Rightarrow> string) \<Rightarrow> ('x \<Rightarrow> 'a \<Rightarrow> 'a) \<Rightarrow> 'a \<Rightarrow> 'a obj \<Rightarrow> 'x \<Rightarrow> 'a obj" where
  "group_step key upd z d x =
     (let c = key x;
          d1 = (if \<not> obj_truthy d c then obj_set c z d else d)
      in case map_of d1 c of
           Some a \<Rightarrow> obj_set c (upd x a) d1
         | None \<Rightarrow> d1)"

definition num_step :: "('x \<Rightarrow> string) \<Rightarrow> ('x \<Rightarrow> rat) \<Rightarrow> jsval obj \<Rightarrow> 'x \<Rightarrow> jsval obj" where
  "num_step key amt d x = obj_assign (key x) (or0_plus (obj_read d (key x)) (amt x)) d"

section \<open>Sums of values, and amounts that doubles add exactly\<close>

text \<open>The sum of a list of values, when all of them are numbers.\<close>

fun total_of :: "jsval list \<Rightarrow> rat option" where
  "total_of [] = Some 0"
| "total_of (Num x # vs) = (case total_of vs of Some t \<Rightarrow> Some (x + t) | None \<Rightarrow> None)"
| "total_of (v # vs) = None"



section \<open>Lemmas on objects, sums and sorting\<close>

lemma foldl_add_sum:
  fixes a :: "'b::comm_monoid_add"
  shows "foldl (\<lambda>s r. s + f r) a xs = a + sum_list (map f xs)"
  by (induction xs arbitrary: a) (simp_all add: add.assoc)

lemma map_of_obj_set: "map_of (obj_set k v d) k' = (if k' = k then Some v else map_of d k')"
  by (induction d) auto

lemma map_fst_obj_set:
  "map fst (obj_set k v d) = (case map_of d k of None \<Rightarrow> map fst d @ [k] | Some a \<Rightarrow> map fst d)"
  by (induction d) (auto split: option.splits)

lemma keys_obj_set: "fst ` set (obj_set k v d) = insert k (fst ` set d)"
proof -
  have "set (map fst (obj_set k v d)) = insert k (set (map fst d))"
    by (auto simp: map_fst_obj_set map_of_eq_None_iff split: option.splits)
       (metis weak_map_of_SomeI option.distinct(1) map_of_eq_None_iff image_eqI fst_conv)+
  then show ?thesis by simp
qed

lemma distinct_obj_set: "distinct (map fst d) \<Longrightarrow> distinct (map fst (obj_set k v d))"
  by (auto simp: map_fst_obj_set map_of_eq_None_iff split: option.splits)

lemma sum_obj_set:
  fixes f :: "'a \<Rightarrow> 'b::comm_monoid_add"
  assumes "f z = 0"
  shows "sum_list (map (\<lambda>e. f (snd e)) (obj_set k v d)) + f (obj_get_or z d k)
         = sum_list (map (\<lambda>e. f (snd e)) d) + f v"
  using assms by (induction d) (auto simp: obj_get_or_def add.assoc add.commute add.left_commute)

lemma get_or_obj_set: "obj_get_or z (obj_set k v d) k' = (if k' = k then v else obj_get_or z d k')"
  by (simp add: obj_get_or_def map_of_obj_set)

lemma accum_sum:
  fixes f :: "'a \<Rightarrow> 'b::cancel_comm_monoid_add"
  assumes z: "f z = 0" and u: "\<And>x a. f (upd x a) = f a + g x"
  shows "sum_list (map (\<lambda>e. f (snd e)) (foldl (accum key upd z) d xs))
         = sum_list (map (\<lambda>e. f (snd e)) d) + sum_list (map g xs)"
proof (induction xs arbitrary: d)
  case Nil
  then show ?case by simp
next
  case (Cons x xs)
  let ?S = "\<lambda>d. sum_list (map (\<lambda>e. f (snd e)) d)"
  have "?S (accum key upd z d x) + f (obj_get_or z d (key x))
        = ?S d + f (upd x (obj_get_or z d (key x)))"
    unfolding accum_def by (rule sum_obj_set [where f = f, OF z])
  also have "\<dots> = (?S d + g x) + f (obj_get_or z d (key x))"
    by (simp add: u ac_simps)
  finally have step: "?S (accum key upd z d x) = ?S d + g x"
    by simp
  show ?case
    by (simp add: Cons.IH step add.assoc)
qed

lemma accum_keys:
  "fst ` set (foldl (accum key upd z) d xs) = fst ` set d \<union> key ` set xs"
  by (induction xs arbitrary: d) (auto simp: accum_def keys_obj_set)

lemma accum_distinct:
  "distinct (map fst d) \<Longrightarrow> distinct (map fst (foldl (accum key upd z) d xs))"
  by (induction xs arbitrary: d) (auto simp: accum_def distinct_obj_set)

lemma accum_lookup:
  "map_of (foldl (accum key upd z) d xs) k =
     (if k \<in> key ` set xs
      then Some (foldl (\<lambda>a x. upd x a) (obj_get_or z d k) (filter (\<lambda>x. key x = k) xs))
      else map_of d k)"
proof (induction xs arbitrary: d)
  case Nil
  then show ?case by simp
next
  case (Cons x xs)
  show ?case
  proof (cases "key x = k")
    case True
    have "filter (\<lambda>x. key x = k) xs = []" if "k \<notin> key ` set xs"
      using that by (auto simp: filter_empty_conv)
    with True show ?thesis
      by (simp add: Cons.IH) (auto simp add: accum_def get_or_obj_set map_of_obj_set)
  next
    case False
    then have "k \<noteq> key x" by blast
    with False show ?thesis
      by (simp add: Cons.IH) (auto simp add: accum_def get_or_obj_set map_of_obj_set)
  qed
qed

lemma mset_insert_by: "mset (insert_by cmp x ys) = add_mset x (mset ys)"
  by (induction ys) simp_all

lemma mset_sort_by: "mset (sort_by cmp xs) = mset xs"
  by (induction xs) (simp_all add: sort_by_def mset_insert_by)

lemma set_sort_by: "set (sort_by cmp xs) = set xs"
  by (metis mset_sort_by set_mset_mset)

lemma length_sort_by: "length (sort_by cmp xs) = length xs"
  by (metis mset_sort_by size_mset)

lemma sorted_insert_by:
  assumes tot: "\<And>x y. cmp x y \<le> 0 \<or> cmp y x \<le> 0"
    and tr: "\<And>x y z. cmp x y \<le> 0 \<Longrightarrow> cmp y z \<le> 0 \<Longrightarrow> cmp x z \<le> 0"
  shows "sorted_wrt (\<lambda>x y. cmp x y \<le> 0) ys \<Longrightarrow> sorted_wrt (\<lambda>x y. cmp x y \<le> 0) (insert_by cmp x ys)"
proof (induction ys)
  case Nil
  then show ?case by simp
next
  case (Cons y ys)
  show ?case
  proof (cases "cmp x y \<le> 0")
    case True
    with Cons.prems show ?thesis by (auto intro: tr)
  next
    case False
    then have "cmp y x \<le> 0" using tot by blast
    moreover have "set (insert_by cmp x ys) = insert x (set ys)"
      by (metis mset_insert_by set_mset_add_mset_insert set_mset_mset)
    ultimately show ?thesis using False Cons by auto
  qed
qed

lemma sorted_sort_by:
  assumes tot: "\<And>x y. cmp x y \<le> 0 \<or> cmp y x \<le> 0"
    and tr: "\<And>x y z. cmp x y \<le> 0 \<Longrightarrow> cmp y z \<le> 0 \<Longrightarrow> cmp x z \<le> 0"
  shows "sorted_wrt (\<lambda>x y. cmp x y \<le> 0) (sort_by cmp xs)"
proof (induction xs)
  case Nil
  then show ?case by (simp add: sort_by_def)
next
  case (Cons x xs)
  have "sort_by cmp (x # xs) = insert_by cmp x (sort_by cmp xs)"
    by (simp add: sort_by_def)
  with Cons show ?case
    using sorted_insert_by [of cmp, OF tot tr] by simp
qed

lemma mset_entries: "mset (entries d) = mset d"
  by (simp add: entries_def)

lemma set_entries: "set (entries d) = set d"
  by (metis mset_entries set_mset_mset)

lemma length_entries: "length (entries d) = length d"
  by (metis mset_entries size_mset)


lemma distinct_mset_cong:
  "mset xs = mset ys \<Longrightarrow> distinct (map f xs) = distinct (map f ys)"
  by (metis mset_map mset_eq_imp_distinct_iff)

section \<open>The loops of the engine and inherited keys\<close>

lemma obj_set_twice: "obj_set k v (obj_set k w d) = obj_set k v d"
  by (induction d) auto

lemma obj_set_map: "obj_set k (f v) (map (apsnd f) d) = map (apsnd f) (obj_set k v d)"
  by (induction d) auto

lemma map_of_apsnd: "map_of (map (apsnd f) d) k = map_option f (map_of d k)"
  by (induction d) auto

lemma proto_inherited: "''__proto__'' \<in> set inherited_keys"
  by (simp add: inherited_keys_def)

lemma group_step_ordinary:
  assumes "key x \<notin> set inherited_keys"
  shows "group_step key upd z d x = accum key upd z d x"
proof (cases "map_of d (key x)")
  case None
  with assms show ?thesis
    by (simp add: group_step_def accum_def obj_truthy_def obj_get_or_def map_of_obj_set
        obj_set_twice)
next
  case (Some a)
  then show ?thesis
    by (simp add: group_step_def accum_def obj_truthy_def obj_get_or_def)
qed

lemma group_step_inherited:
  assumes "key x \<in> set inherited_keys" and "map_of d (key x) = None"
  shows "group_step key upd z d x = d"
  using assms by (simp add: group_step_def obj_truthy_def)

lemma group_fold:
  assumes "fst ` set d \<inter> set inherited_keys = {}"
  shows "foldl (group_step key upd z) d xs
         = foldl (accum key upd z) d (filter (\<lambda>x. key x \<notin> set inherited_keys) xs)"
  using assms
proof (induction xs arbitrary: d)
  case Nil
  then show ?case by simp
next
  case (Cons x xs)
  show ?case
  proof (cases "key x \<in> set inherited_keys")
    case True
    with Cons.prems have "key x \<notin> fst ` set d" by blast
    then have "map_of d (key x) = None"
      by (simp add: map_of_eq_None_iff)
    with True have "group_step key upd z d x = d"
      by (rule group_step_inherited)
    with True Cons show ?thesis by simp
  next
    case False
    then have s: "group_step key upd z d x = accum key upd z d x"
      by (rule group_step_ordinary)
    have "fst ` set (accum key upd z d x) = insert (key x) (fst ` set d)"
      by (simp add: accum_def keys_obj_set)
    with False Cons.prems have "fst ` set (accum key upd z d x) \<inter> set inherited_keys = {}"
      by simp
    then show ?thesis
      using False s Cons.IH [of "accum key upd z d x"] by simp
  qed
qed

lemma group_fold_empty:
  "foldl (group_step key upd z) [] xs
   = foldl (accum key upd z) [] (filter (\<lambda>x. key x \<notin> set inherited_keys) xs)"
  by (rule group_fold) simp

lemma num_step_ordinary:
  assumes "key x \<notin> set inherited_keys"
  shows "num_step key amt (map (apsnd Num) d) x
         = map (apsnd Num) (accum key (\<lambda>x a. a + amt x) 0 d x)"
proof -
  from assms have p: "key x \<noteq> ''__proto__''"
    using proto_inherited by metis
  have "or0_plus (obj_read (map (apsnd Num) d) (key x)) (amt x)
        = Num (obj_get_or 0 d (key x) + amt x)"
    using assms by (cases "map_of d (key x)") (simp_all add: obj_read_def obj_get_or_def map_of_apsnd)
  with p show ?thesis
    by (simp add: num_step_def obj_assign_def accum_def obj_set_map)
qed

lemma num_fold_ordinary:
  assumes "\<forall>x \<in> set xs. key x \<notin> set inherited_keys"
  shows "foldl (num_step key amt) (map (apsnd Num) d) xs
         = map (apsnd Num) (foldl (accum key (\<lambda>x a. a + amt x) 0) d xs)"
  using assms by (induction xs arbitrary: d) (simp_all add: num_step_ordinary)

lemma num_step_keys:
  "fst ` set (num_step key amt d x)
   = (if key x = ''__proto__'' then fst ` set d else insert (key x) (fst ` set d))"
  by (simp add: num_step_def obj_assign_def keys_obj_set)

lemma num_fold_keys:
  "fst ` set (foldl (num_step key amt) d xs) = fst ` set d \<union> (key ` set xs - {''__proto__''})"
  by (induction xs arbitrary: d) (auto simp: num_step_keys)

lemma total_of_nums: "total_of (map Num xs) = Some (sum_list xs)"
  by (induction xs) simp_all


lemma num_step_distinct:
  "distinct (map fst d) \<Longrightarrow> distinct (map fst (num_step key amt d x))"
  by (simp add: num_step_def obj_assign_def distinct_obj_set)

lemma num_fold_distinct:
  "distinct (map fst d) \<Longrightarrow> distinct (map fst (foldl (num_step key amt) d xs))"
  by (induction xs arbitrary: d) (simp_all add: num_step_distinct)

lemma set_sorted_entries: "set (sort_by cmp (entries d)) = set d"
  by (simp add: set_sort_by set_entries)

lemma distinct_sorted_entries:
  "distinct (map fst (sort_by cmp (entries d))) = distinct (map fst d)"
  by (rule distinct_mset_cong) (simp add: mset_sort_by mset_entries)

lemma length_sorted_entries: "length (sort_by cmp (entries d)) = length d"
  by (simp add: length_sort_by length_entries)

lemma lookup_entry:
  assumes "distinct (map fst (foldl (accum key upd z) [] xs))"
    and "(k, a) \<in> set (foldl (accum key upd z) [] xs)"
  shows "k \<in> key ` set xs \<and> a = foldl (\<lambda>a x. upd x a) z (filter (\<lambda>x. key x = k) xs)"
proof -
  have m: "map_of (foldl (accum key upd z) [] xs) k = Some a"
    using assms by (rule map_of_is_SomeI)
  have k: "k \<in> key ` set xs"
    using assms(2) accum_keys [of key upd z "[]" xs] by force
  with m show ?thesis
    by (simp add: accum_lookup obj_get_or_def)
qed

lemma accum_distinct_empty: "distinct (map fst (foldl (accum key upd z) [] xs))"
  by (rule accum_distinct) simp

lemma accum_keys_empty: "fst ` set (foldl (accum key upd z) [] xs) = key ` set xs"
  by (simp add: accum_keys)

lemma accum_length_empty: "length (foldl (accum key upd z) [] xs) = card (key ` set xs)"
proof -
  have "length (foldl (accum key upd z) [] xs) = length (map fst (foldl (accum key upd z) [] xs))"
    by simp
  also have "\<dots> = card (set (map fst (foldl (accum key upd z) [] xs)))"
    by (rule distinct_card [symmetric]) (rule accum_distinct_empty)
  also have "\<dots> = card (key ` set xs)"
    by (simp add: accum_keys_empty)
  finally show ?thesis .
qed

subsection \<open>Groups\<close>

lemma group_keys:
  "fst ` set (foldl (group_step key upd z) [] xs) = key ` set xs - set inherited_keys"
  by (auto simp: group_fold_empty accum_keys_empty)

lemma group_distinct: "distinct (map fst (foldl (group_step key upd z) [] xs))"
  by (simp add: group_fold_empty accum_distinct_empty)

lemma group_length:
  "length (foldl (group_step key upd z) [] xs) = card (key ` set xs - set inherited_keys)"
proof -
  have "key ` set (filter (\<lambda>x. key x \<notin> set inherited_keys) xs) = key ` set xs - set inherited_keys"
    by auto
  then show ?thesis
    by (simp add: group_fold_empty accum_length_empty)
qed

lemma group_entry:
  assumes "(k, a) \<in> set (foldl (group_step key upd z) [] xs)"
  shows "k \<in> key ` set xs \<and> k \<notin> set inherited_keys
         \<and> a = foldl (\<lambda>a x. upd x a) z (filter (\<lambda>x. key x = k) xs)"
proof -
  let ?ys = "filter (\<lambda>x. key x \<notin> set inherited_keys) xs"
  have "(k, a) \<in> set (foldl (accum key upd z) [] ?ys)"
    using assms by (simp only: group_fold_empty)
  then have e: "k \<in> key ` set ?ys \<and> a = foldl (\<lambda>a x. upd x a) z (filter (\<lambda>x. key x = k) ?ys)"
    by (rule lookup_entry [OF accum_distinct_empty])
  then have k: "k \<in> key ` set xs" "k \<notin> set inherited_keys"
    by auto
  then have "filter (\<lambda>x. key x = k) ?ys = filter (\<lambda>x. key x = k) xs"
    by (auto intro: filter_cong)
  with e k show ?thesis
    by simp
qed


subsection \<open>Amounts and counts\<close>



section \<open>Evaluation of the engine on concrete data\<close>

lemmas engine_defs = computePL_def computeDashboardKPIs_def isOverdue_def
  categorySorted_def categoryBreakdownObj_def cat_step_def cat_add_def cat_zero_def cat_cmp_def cat_to_row_def
  paymentMethodsSorted_def paymentMethodsObj_def pm_step_def amount_cmp_def pct_of_def
  expenseSorted_def expenseByCategory_def exp_step_def
  topCustomersOf_def customerRevenue_def cust_step_def cust_add_def cust_zero_def cust_cmp_def cust_to_row_def
  trendSorted_def dailyTrendObj_def trend_step_def trend_add_def trend_zero_def trend_cmp_def trend_to_row_def day_of_def
  statusCountsOf_def status_init_def status_step_def
  obj_truthy_def obj_read_def obj_assign_def inherited_keys_def
  entries_def is_array_index_def is_digit_def dec_val_def sort_by_def localeCompare_def
  str_or_def num_or_def blank_def june_2024_def read_date_def Let_def

text \<open>
  The order of \<^verbatim>\<open>Object.entries\<close>, the rounding of \<^verbatim>\<open>toFixed(1)\<close>, and the aggregator on one
  paid sale of two units and one expense.
\<close>

lemma entries_order_example:
  "entries [(''b'', 1::nat), (''10'', 2), (''2'', 3), (''02'', 4), (''a'', 5),
            (''4294967295'', 6), (''4294967294'', 7), (''0'', 8)]
   = [(''0'', 8), (''2'', 3), (''10'', 2), (''4294967294'', 7), (''b'', 1), (''02'', 4),
      (''a'', 5), (''4294967295'', 6)]"
  by (simp add: entries_def is_array_index_def is_digit_def dec_val_def)

lemma toFixed1_examples:
  "map toFixed1 [0, 1 / 4, - 1 / 100, 123456 / 1000, - 5 / 2, 100]
   = [''0.0'', ''0.3'', ''-0.0'', ''123.5'', ''-2.5'', ''100.0'']"
  by code_simp

lemma end_to_end_scenario:
  "computePL read_date june_2024
     [blank\<lparr>total_f := Some 1000, paid := Some 1000, qty := Some 2, costPrice := Some 200,
            category := Str ''A'', status := Str ''PAID''\<rparr>]
     [\<lparr>exp_category = Str ''Rent'', amount = Some 150\<rparr>] []
   = \<lparr>revenue = 1000, collected = 1000, outstanding = 0, cogs = 400, grossProfit = 600,
      grossMargin = ''60.0'', totalExpenses = 150, netProfit = 450, netMargin = ''45.0'',
      collectionRate = ''100.0'', refunds = 0, overdueDebt = 0, upcomingDebt = 0,
      salesCount = 1, uniqueCustomers = 1, unitsSold = 2,
      statusCounts =
        [(''PAID'', Num 1), (''PARTIAL'', Num 0), (''UNPAID'', Num 0), (''OVERDUE'', Num 0)],
      categoryBreakdown =
        [\<lparr>c_revenue = 1000, c_cogs = 400, c_profit = 600, c_qty = 2, c_count = 1,
           c_name = ''A'', c_margin = ''60.0''\<rparr>],
      paymentMethods = [\<lparr>pm_method = ''Cash'', pm_amount = Num 1000, pm_pct = ''100.0''\<rparr>],
      expenseBreakdown = [\<lparr>x_category = ''Rent'', x_amount = Num 150, x_pct = ''100.0''\<rparr>],
      topCustomers =
        [\<lparr>u_revenue = 1000, u_paid = 1000, u_balance = 0, u_count = 1, u_name = ''Walk-in''\<rparr>],
      dailyTrend = [], computedAt = ''2024-06-01T00:00:00.000Z''\<rparr>"
  by code_simp

text \<open>
  The aggregator on keys that are inherited members: the sale gets no category group, no
  customer group and no day; its payment method holds a string; its status and the
  expense are not stored.
\<close>

lemma inherited_keys_scenario:
  "computePL read_date june_2024
     [blank\<lparr>total_f := Some 100, paid := Some 100, category := Str ''constructor'',
            customer := Str ''toString'', method_f := Str ''valueOf'',
            status := Str ''__proto__'', date := Str ''toString''\<rparr>]
     [\<lparr>exp_category = Str ''__proto__'', amount = Some 150\<rparr>] []
   = \<lparr>revenue = 100, collected = 100, outstanding = 0, cogs = 0, grossProfit = 100,
      grossMargin = ''100.0'', totalExpenses = 150, netProfit = - 50, netMargin = ''-50.0'',
      collectionRate = ''100.0'', refunds = 0, overdueDebt = 0, upcomingDebt = 0,
      salesCount = 1, uniqueCustomers = 1, unitsSold = 0,
      statusCounts =
        [(''PAID'', Num 0), (''PARTIAL'', Num 0), (''UNPAID'', Num 0), (''OVERDUE'', Num 0)],
      categoryBreakdown = [],
      paymentMethods = [\<lparr>pm_method = ''valueOf'', pm_amount = Text, pm_pct = ''NaN''\<rparr>],
      expenseBreakdown = [],
      topCustomers = [],
      dailyTrend = [], computedAt = ''2024-06-01T00:00:00.000Z''\<rparr>"
  by code_simp

section \<open>The loops of the engine\<close>

lemma num_or_zero: "num x = (case x of None \<Rightarrow> 0 | Some v \<Rightarrow> v)"
  by (simp add: num_or_def split: option.splits)



lemma cust_step_group:
  "cust_step = group_step (\<lambda>s. str_or (customer s) ''Walk-in'') cust_add cust_zero"
  by (intro ext) (simp add: cust_step_def group_step_def Let_def)

lemma trend_step_group:
  "foldl trend_step d sales
   = foldl (group_step day_of trend_add trend_zero) d (filter (\<lambda>s. day_of s \<noteq> []) sales)"
  by (induction sales arbitrary: d) (simp_all add: trend_step_def group_step_def Let_def)



lemma status_step_num:
  "status_step = num_step (\<lambda>s. key_of (status s)) (\<lambda>s. 1)"
  by (intro ext) (simp add: status_step_def num_step_def Let_def)

subsection \<open>Sums over the groups\<close>




subsection \<open>The daily trend\<close>

lemma trend_obj_group:
  "dailyTrendObj sales
   = foldl (group_step day_of trend_add trend_zero) [] (filter (\<lambda>s. day_of s \<noteq> []) sales)"
  by (simp add: dailyTrendObj_def trend_step_group)

lemma trend_fold_revenue:
  "t_revenue (foldl (\<lambda>a x. trend_add x a) a ys) = t_revenue a + (\<Sum>s\<leftarrow>ys. num (total_f s))"
  by (induction ys arbitrary: a) (simp_all add: trend_add_def)

lemma trend_fold_profit:
  "t_profit (foldl (\<lambda>a x. trend_add x a) a ys)
   = t_profit a + (\<Sum>s\<leftarrow>ys. num (total_f s) - num (qty s) * num (costPrice s))"
  by (induction ys arbitrary: a) (simp_all add: trend_add_def)

lemma trend_keys:
  "fst ` set (dailyTrendObj sales) = day_of ` set sales - {[]} - set inherited_keys"
  by (auto simp: trend_obj_group group_keys)

lemma trend_distinct: "distinct (map fst (dailyTrendObj sales))"
  by (simp add: trend_obj_group group_distinct)

lemma trend_entry:
  assumes "(k, a) \<in> set (dailyTrendObj sales)"
  shows "k \<noteq> []
    \<and> t_revenue a = (\<Sum>s\<leftarrow>filter (\<lambda>s. day_of s = k) sales. num (total_f s))
    \<and> t_profit a = (\<Sum>s\<leftarrow>filter (\<lambda>s. day_of s = k) sales.
                        num (total_f s) - num (qty s) * num (costPrice s))"
proof -
  have k: "k \<noteq> []"
    using assms trend_keys [of sales] by force
  then have f: "filter (\<lambda>x. day_of x = k) (filter (\<lambda>s. day_of s \<noteq> []) sales)
             = filter (\<lambda>s. day_of s = k) sales"
    by (auto intro: filter_cong)
  have "(k, a) \<in> set (foldl (group_step day_of trend_add trend_zero) []
                         (filter (\<lambda>s. day_of s \<noteq> []) sales))"
    using assms by (simp only: trend_obj_group)
  then have "a = foldl (\<lambda>a x. trend_add x a) trend_zero
              (filter (\<lambda>x. day_of x = k) (filter (\<lambda>s. day_of s \<noteq> []) sales))"
    using group_entry [where key = day_of and upd = trend_add and z = trend_zero]
    by blast
  then have "a = foldl (\<lambda>a x. trend_add x a) trend_zero (filter (\<lambda>s. day_of s = k) sales)"
    by (simp only: f)
  with k show ?thesis
    by (simp add: trend_fold_revenue trend_fold_profit trend_zero_def)
qed

lemma localeCompare_le: "(localeCompare a b \<le> 0) = (a \<le> b)"
  by (auto simp: localeCompare_def)

lemma trend_sorted: "sorted_wrt (<) (map t_date (trendSorted sales))"
proof -
  let ?L = "sort_by trend_cmp (entries (dailyTrendObj sales))"
  have m: "map t_date (trendSorted sales) = map fst ?L"
    by (simp add: trendSorted_def trend_to_row_def comp_def)
  have "sorted_wrt (\<lambda>x y. trend_cmp x y \<le> 0) ?L"
    by (rule sorted_sort_by) (auto simp: trend_cmp_def localeCompare_le)
  then have "sorted (map fst ?L)"
    by (simp add: sorted_map trend_cmp_def localeCompare_le)
  moreover have "distinct (map fst ?L)"
    by (simp add: distinct_sorted_entries trend_distinct)
  ultimately show ?thesis
    by (simp add: m strict_sorted_iff)
qed

lemma trend_rows:
  assumes "row \<in> set (trendSorted sales)"
  shows "t_date row \<noteq> []
    \<and> t_revenue row = (\<Sum>s\<leftarrow>filter (\<lambda>s. day_of s = t_date row) sales. num (total_f s))
    \<and> t_profit row = (\<Sum>s\<leftarrow>filter (\<lambda>s. day_of s = t_date row) sales.
                        num (total_f s) - num (qty s) * num (costPrice s))"
proof -
  from assms obtain e where e: "e \<in> set (dailyTrendObj sales)" and r: "row = trend_to_row e"
    by (auto simp: trendSorted_def set_sorted_entries)
  obtain k a where ka: "e = (k, a)" by (cases e)
  from trend_entry [of k a sales] e ka r show ?thesis
    by (simp add: trend_to_row_def)
qed

lemma trend_dates:
  "set (map t_date (trendSorted sales)) = day_of ` set sales - {[]} - set inherited_keys"
proof -
  have "map t_date (trendSorted sales) = map fst (sort_by trend_cmp (entries (dailyTrendObj sales)))"
    by (simp add: trendSorted_def trend_to_row_def comp_def)
  then show ?thesis
    by (simp add: set_sorted_entries trend_keys)
qed



lemma inherited_first:
  "d \<in> set inherited_keys \<Longrightarrow> d \<noteq> [] \<and> hd d \<notin> set ''0123456789-''"
  by (auto simp: inherited_keys_def)

subsection \<open>Customers\<close>

lemma cust_obj_group:
  "customerRevenue sales
   = foldl (group_step (\<lambda>s. str_or (customer s) ''Walk-in'') cust_add cust_zero) [] sales"
  by (simp add: customerRevenue_def cust_step_group)

lemma cust_fold_revenue:
  "u_revenue (foldl (\<lambda>a x. cust_add x a) a ys) = u_revenue a + (\<Sum>s\<leftarrow>ys. num (total_f s))"
  by (induction ys arbitrary: a) (simp_all add: cust_add_def)

lemma cust_fold_paid:
  "u_paid (foldl (\<lambda>a x. cust_add x a) a ys) = u_paid a + (\<Sum>s\<leftarrow>ys. num (paid s))"
  by (induction ys arbitrary: a) (simp_all add: cust_add_def)

lemma cust_fold_balance:
  "u_balance (foldl (\<lambda>a x. cust_add x a) a ys) = u_balance a + (\<Sum>s\<leftarrow>ys. num (balance s))"
  by (induction ys arbitrary: a) (simp_all add: cust_add_def)

lemma cust_fold_count:
  "u_count (foldl (\<lambda>a x. cust_add x a) a ys) = u_count a + length ys"
  by (induction ys arbitrary: a) (simp_all add: cust_add_def)

lemma cust_entry:
  assumes "(k, a) \<in> set (customerRevenue sales)"
  shows "k \<in> (\<lambda>s. str_or (customer s) ''Walk-in'') ` set sales - set inherited_keys
    \<and> u_revenue a = (\<Sum>s\<leftarrow>filter (\<lambda>s. str_or (customer s) ''Walk-in'' = k) sales. num (total_f s))
    \<and> u_paid a = (\<Sum>s\<leftarrow>filter (\<lambda>s. str_or (customer s) ''Walk-in'' = k) sales. num (paid s))
    \<and> u_balance a = (\<Sum>s\<leftarrow>filter (\<lambda>s. str_or (customer s) ''Walk-in'' = k) sales. num (balance s))
    \<and> u_count a = length (filter (\<lambda>s. str_or (customer s) ''Walk-in'' = k) sales)"
proof -
  have "(k, a) \<in> set (foldl (group_step (\<lambda>s. str_or (customer s) ''Walk-in'') cust_add cust_zero)
                         [] sales)"
    using assms by (simp only: cust_obj_group)
  then have "k \<in> (\<lambda>s. str_or (customer s) ''Walk-in'') ` set sales \<and> k \<notin> set inherited_keys
      \<and> a = foldl (\<lambda>a x. cust_add x a) cust_zero
              (filter (\<lambda>s. str_or (customer s) ''Walk-in'' = k) sales)"
    by (rule group_entry)
  then show ?thesis
    by (simp add: cust_fold_revenue cust_fold_paid cust_fold_balance cust_fold_count cust_zero_def)
qed

lemma cust_distinct: "distinct (map fst (customerRevenue sales))"
  by (simp add: cust_obj_group group_distinct)

lemma cust_length:
  "length (customerRevenue sales)
   = card ((\<lambda>s. str_or (customer s) ''Walk-in'') ` set sales - set inherited_keys)"
  by (simp add: cust_obj_group group_length)

lemma customer_names:
  "fst ` set (customerRevenue sales)
   = (\<lambda>s. str_or (customer s) ''Walk-in'') ` set sales - set inherited_keys"
  by (simp add: cust_obj_group group_keys)

lemma cust_sorted:
  "sorted_wrt (\<lambda>x y. u_revenue (snd y) \<le> u_revenue (snd x))
     (sort_by cust_cmp (entries (customerRevenue sales)))"
proof -
  have "sorted_wrt (\<lambda>x y. cust_cmp x y \<le> 0) (sort_by cust_cmp (entries (customerRevenue sales)))"
    by (rule sorted_sort_by) (auto simp: cust_cmp_def)
  then show ?thesis
    by (simp add: cust_cmp_def)
qed

lemma top_length:
  "length (topCustomersOf sales)
   = min 10 (card ((\<lambda>s. str_or (customer s) ''Walk-in'') ` set sales - set inherited_keys))"
  by (simp add: topCustomersOf_def length_sorted_entries cust_length min.commute)

lemma top_sorted: "sorted_wrt (\<lambda>a b. u_revenue b \<le> u_revenue a) (topCustomersOf sales)"
proof -
  have "sorted_wrt (\<lambda>x y. u_revenue (snd y) \<le> u_revenue (snd x))
          (take 10 (sort_by cust_cmp (entries (customerRevenue sales))))"
    by (rule sorted_wrt_take) (rule cust_sorted)
  then show ?thesis
    by (simp add: topCustomersOf_def sorted_wrt_map cust_to_row_def Let_def)
qed

lemma top_names:
  "map u_name (topCustomersOf sales)
   = map fst (take 10 (sort_by cust_cmp (entries (customerRevenue sales))))"
  by (simp add: topCustomersOf_def cust_to_row_def Let_def comp_def)

lemma top_distinct: "distinct (map u_name (topCustomersOf sales))"
proof -
  have "distinct (map fst (sort_by cust_cmp (entries (customerRevenue sales))))"
    by (simp add: distinct_sorted_entries cust_distinct)
  then have "distinct (take 10 (map fst (sort_by cust_cmp (entries (customerRevenue sales)))))"
    by (rule distinct_take)
  then show ?thesis
    by (simp add: top_names take_map)
qed

lemma top_rows:
  assumes "row \<in> set (topCustomersOf sales)"
  shows "u_name row \<in> (\<lambda>s. str_or (customer s) ''Walk-in'') ` set sales - set inherited_keys
    \<and> u_revenue row
      = (\<Sum>s\<leftarrow>filter (\<lambda>s. str_or (customer s) ''Walk-in'' = u_name row) sales. num (total_f s))
    \<and> u_paid row
      = (\<Sum>s\<leftarrow>filter (\<lambda>s. str_or (customer s) ''Walk-in'' = u_name row) sales. num (paid s))
    \<and> u_balance row
      = (\<Sum>s\<leftarrow>filter (\<lambda>s. str_or (customer s) ''Walk-in'' = u_name row) sales. num (balance s))
    \<and> u_count row = length (filter (\<lambda>s. str_or (customer s) ''Walk-in'' = u_name row) sales)"
proof -
  from assms obtain e where
    e: "e \<in> set (take 10 (sort_by cust_cmp (entries (customerRevenue sales))))"
    and r: "row = cust_to_row e"
    by (auto simp: topCustomersOf_def)
  from e have "e \<in> set (sort_by cust_cmp (entries (customerRevenue sales)))"
    by (rule in_set_takeD)
  then have m: "e \<in> set (customerRevenue sales)"
    by (simp add: set_sorted_entries)
  obtain k a where ka: "e = (k, a)" by (cases e)
  from cust_entry [of k a sales] m ka r show ?thesis
    by (simp add: cust_to_row_def Let_def)
qed

lemma top_dominates:
  assumes s: "s \<in> set sales"
    and o: "str_or (customer s) ''Walk-in'' \<notin> set inherited_keys"
    and n: "str_or (customer s) ''Walk-in'' \<notin> set (map u_name (topCustomersOf sales))"
    and row: "row \<in> set (topCustomersOf sales)"
  shows "(\<Sum>r\<leftarrow>filter (\<lambda>r. str_or (customer r) ''Walk-in'' = str_or (customer s) ''Walk-in'') sales.
            num (total_f r)) \<le> u_revenue row"
proof -
  let ?k = "str_or (customer s) ''Walk-in''"
  let ?L = "sort_by cust_cmp (entries (customerRevenue sales))"
  have "?k \<in> fst ` set (customerRevenue sales)"
    using s o by (simp add: customer_names)
  then obtain a where a: "(?k, a) \<in> set (customerRevenue sales)"
    by force
  then have "(?k, a) \<in> set ?L"
    by (simp add: set_sorted_entries)
  then have "(?k, a) \<in> set (take 10 ?L) \<union> set (drop 10 ?L)"
    by (metis append_take_drop_id set_append)
  moreover have "(?k, a) \<notin> set (take 10 ?L)"
    using n by (force simp: top_names)
  ultimately have d: "(?k, a) \<in> set (drop 10 ?L)"
    by blast
  from row obtain e where e: "e \<in> set (take 10 ?L)" and r: "row = cust_to_row e"
    by (auto simp: topCustomersOf_def)
  have "sorted_wrt (\<lambda>x y. u_revenue (snd y) \<le> u_revenue (snd x)) (take 10 ?L @ drop 10 ?L)"
    using cust_sorted [of sales] by simp
  then have "u_revenue (snd (?k, a)) \<le> u_revenue (snd e)"
    using e d unfolding sorted_wrt_append by blast
  moreover have "u_revenue a
      = (\<Sum>r\<leftarrow>filter (\<lambda>r. str_or (customer r) ''Walk-in'' = ?k) sales. num (total_f r))"
    using cust_entry [OF a] by simp
  ultimately show ?thesis
    using r by (simp add: cust_to_row_def Let_def)
qed

subsection \<open>Group names\<close>





subsection \<open>Status counts\<close>

lemma status_init_nums:
  "status_init
   = map (apsnd Num) [(''PAID'', 0), (''PARTIAL'', 0), (''UNPAID'', 0), (''OVERDUE'', 0)]"
  by (simp add: status_init_def)

lemma foldl_count: "foldl (\<lambda>a x. a + 1) (n::rat) ys = n + of_nat (length ys)"
  by (induction ys arbitrary: n) simp_all

lemma status_keys:
  "fst ` set (statusCountsOf sales)
   = {''PAID'', ''PARTIAL'', ''UNPAID'', ''OVERDUE''}
     \<union> ((\<lambda>s. key_of (status s)) ` set sales - {''__proto__''})"
  unfolding statusCountsOf_def status_step_num num_fold_keys
  by (simp add: status_init_def insert_commute)

lemma status_distinct: "distinct (map fst (statusCountsOf sales))"
  unfolding statusCountsOf_def status_step_num
  by (rule num_fold_distinct) (simp add: status_init_def)

lemma status_ordinary:
  assumes "\<forall>s \<in> set sales. key_of (status s) \<notin> set inherited_keys"
  shows "statusCountsOf sales
         = map (apsnd Num)
             (foldl (accum (\<lambda>s. key_of (status s)) (\<lambda>s a. a + 1) 0)
                [(''PAID'', 0), (''PARTIAL'', 0), (''UNPAID'', 0), (''OVERDUE'', 0)] sales)"
  unfolding statusCountsOf_def status_step_num status_init_nums
  by (rule num_fold_ordinary [OF assms])

lemma status_lookup:
  assumes o: "\<forall>s \<in> set sales. key_of (status s) \<notin> set inherited_keys"
    and k: "k \<in> fst ` set (statusCountsOf sales)"
  shows "map_of (statusCountsOf sales) k
         = Some (Num (of_nat (length (filter (\<lambda>s. key_of (status s) = k) sales))))"
proof -
  let ?init = "[(''PAID'', 0::rat), (''PARTIAL'', 0), (''UNPAID'', 0), (''OVERDUE'', 0)]"
  let ?D = "foldl (accum (\<lambda>s. key_of (status s)) (\<lambda>s a. a + 1) 0) ?init sales"
  have z: "obj_get_or 0 ?init k = 0"
    by (simp add: obj_get_or_def)
  have "map_of ?D k = Some (of_nat (length (filter (\<lambda>s. key_of (status s) = k) sales)))"
  proof (cases "k \<in> (\<lambda>s. key_of (status s)) ` set sales")
    case True
    then show ?thesis
      by (simp add: accum_lookup foldl_count z)
  next
    case False
    then have e: "filter (\<lambda>s. key_of (status s) = k) sales = []"
      by (auto simp: filter_empty_conv)
    from False k have "k \<in> {''PAID'', ''PARTIAL'', ''UNPAID'', ''OVERDUE''}"
      unfolding status_keys by blast
    then have "map_of ?init k = Some 0"
      by auto
    with False e show ?thesis
      by (simp add: accum_lookup)
  qed
  then show ?thesis
    by (simp add: status_ordinary [OF o] map_of_apsnd)
qed

lemma status_total:
  assumes "\<forall>s \<in> set sales. key_of (status s) \<notin> set inherited_keys"
  shows "total_of (map snd (statusCountsOf sales)) = Some (of_nat (length sales))"
proof -
  let ?init = "[(''PAID'', 0::rat), (''PARTIAL'', 0), (''UNPAID'', 0), (''OVERDUE'', 0)]"
  let ?D = "foldl (accum (\<lambda>s. key_of (status s)) (\<lambda>s a. a + 1) 0) ?init sales"
  have "map snd (statusCountsOf sales) = map Num (map snd ?D)"
    by (simp add: status_ordinary [OF assms] comp_def)
  then have "total_of (map snd (statusCountsOf sales)) = Some (sum_list (map (\<lambda>e. snd e) ?D))"
    by (simp only: total_of_nums)
  also have "sum_list (map (\<lambda>e. snd e) ?D)
             = sum_list (map (\<lambda>e. snd e) ?init) + sum_list (map (\<lambda>s. 1) sales)"
    by (rule accum_sum [where f = "\<lambda>a. a"]) simp_all
  also have "\<dots> = of_nat (length sales)"
    by (simp add: sum_list_triv)
  finally show ?thesis .
qed

section \<open>Debt segmentation\<close>

text \<open>
  Claim C1. A sale is overdue exactly when its status is not PAID, it has a due date, and
  the due date is strictly before the evaluation instant; without a due date it is never
  overdue. The overdue debt is the sum of the balances of the overdue sales with a
  positive balance, the upcoming debt that of the sales that are not overdue, not PAID
  and have a positive balance, and the dashboard's overdue count is the number of overdue
  sales with a positive balance.
\<close>

theorem overdue_classification:
  "isOverdue parseDate now s
     = (status s \<noteq> Str ''PAID'' \<and> truthy (dueDate s)
        \<and> (case parseDate (key_of (dueDate s)) of None \<Rightarrow> False | Some t \<Rightarrow> t < instant now))
   \<and> (\<not> truthy (dueDate s) \<longrightarrow> \<not> isOverdue parseDate now s)
   \<and> overdueDebt (computePL parseDate now sales expenses returns)
     = (\<Sum>r\<leftarrow>filter (\<lambda>r. isOverdue parseDate now r \<and> 0 < num (balance r)) sales. num (balance r))
   \<and> upcomingDebt (computePL parseDate now sales expenses returns)
     = (\<Sum>r\<leftarrow>filter (\<lambda>r. \<not> isOverdue parseDate now r \<and> status r \<noteq> Str ''PAID''
                            \<and> 0 < num (balance r)) sales. num (balance r))
   \<and> k_overdueCount (computeDashboardKPIs parseDate now sales expenses inventory)
     = length (filter (\<lambda>r. isOverdue parseDate now r \<and> 0 < num (balance r)) sales)"
proof -
  have a: "isOverdue parseDate now s
     = (status s \<noteq> Str ''PAID'' \<and> truthy (dueDate s)
        \<and> (case parseDate (key_of (dueDate s)) of None \<Rightarrow> False | Some t \<Rightarrow> t < instant now))"
    for s
    by (simp add: isOverdue_def)
  have b: "\<not> truthy (dueDate s) \<longrightarrow> \<not> isOverdue parseDate now s"
    by (simp add: isOverdue_def)
  have c: "overdueDebt (computePL parseDate now sales expenses returns)
     = (\<Sum>r\<leftarrow>filter (\<lambda>r. isOverdue parseDate now r \<and> 0 < num (balance r)) sales. num (balance r))"
    by (simp add: computePL_def Let_def foldl_add_sum)
  have d: "upcomingDebt (computePL parseDate now sales expenses returns)
     = (\<Sum>r\<leftarrow>filter (\<lambda>r. \<not> isOverdue parseDate now r \<and> status r \<noteq> Str ''PAID''
                            \<and> 0 < num (balance r)) sales. num (balance r))"
    by (simp add: computePL_def Let_def foldl_add_sum)
  have "(if status r = Str ''PAID'' then False
         else if \<not> truthy (dueDate r) then False
         else (case parseDate (key_of (dueDate r)) of None \<Rightarrow> False | Some t \<Rightarrow> t < instant now)
              \<and> num (balance r) > 0)
        = (isOverdue parseDate now r \<and> 0 < num (balance r))" for r
    by (simp add: isOverdue_def)
  then have e: "k_overdueCount (computeDashboardKPIs parseDate now sales expenses inventory)
     = length (filter (\<lambda>r. isOverdue parseDate now r \<and> 0 < num (balance r)) sales)"
    by (simp add: computeDashboardKPIs_def Let_def)
  from a [of s] b c d e show ?thesis by blast
qed

theorem overdue_classification_witness:
  "isOverdue read_date june_2024
     (blank\<lparr>status := Str ''PARTIAL'', dueDate := Str ''2024-01-01'', balance := Some 100\<rparr>)
   \<and> \<not> isOverdue read_date june_2024
     (blank\<lparr>status := Str ''PARTIAL'', dueDate := Str ''2030-01-01'', balance := Some 100\<rparr>)
   \<and> \<not> isOverdue read_date june_2024
     (blank\<lparr>status := Str ''PAID'', dueDate := Str ''2024-01-01'', balance := Some 100\<rparr>)
   \<and> \<not> truthy (dueDate (blank\<lparr>status := Str ''UNPAID'', balance := Some 40\<rparr>))
   \<and> \<not> isOverdue read_date june_2024 (blank\<lparr>status := Str ''UNPAID'', balance := Some 40\<rparr>)
   \<and> overdueDebt (computePL read_date june_2024
       [blank\<lparr>status := Str ''PARTIAL'', dueDate := Str ''2024-01-01'', balance := Some 100\<rparr>,
        blank\<lparr>status := Str ''PARTIAL'', dueDate := Str ''2030-01-01'', balance := Some 100\<rparr>,
        blank\<lparr>status := Str ''PAID'', dueDate := Str ''2024-01-01'', balance := Some 100\<rparr>,
        blank\<lparr>status := Str ''UNPAID'', balance := Some 40\<rparr>] [] []) = 100
   \<and> upcomingDebt (computePL read_date june_2024
       [blank\<lparr>status := Str ''PARTIAL'', dueDate := Str ''2024-01-01'', balance := Some 100\<rparr>,
        blank\<lparr>status := Str ''PARTIAL'', dueDate := Str ''2030-01-01'', balance := Some 100\<rparr>,
        blank\<lparr>status := Str ''PAID'', dueDate := Str ''2024-01-01'', balance := Some 100\<rparr>,
        blank\<lparr>status := Str ''UNPAID'', balance := Some 40\<rparr>] [] []) = 140
   \<and> k_overdueCount (computeDashboardKPIs read_date june_2024
       [blank\<lparr>status := Str ''PARTIAL'', dueDate := Str ''2024-01-01'', balance := Some 100\<rparr>,
        blank\<lparr>status := Str ''PARTIAL'', dueDate := Str ''2030-01-01'', balance := Some 100\<rparr>,
        blank\<lparr>status := Str ''PAID'', dueDate := Str ''2024-01-01'', balance := Some 100\<rparr>,
        blank\<lparr>status := Str ''UNPAID'', balance := Some 40\<rparr>] [] []) = 1"
  using overdue_classification [of read_date june_2024
       "blank\<lparr>status := Str ''UNPAID'', balance := Some 40\<rparr>"
       "[blank\<lparr>status := Str ''PARTIAL'', dueDate := Str ''2024-01-01'', balance := Some 100\<rparr>,
        blank\<lparr>status := Str ''PARTIAL'', dueDate := Str ''2030-01-01'', balance := Some 100\<rparr>,
        blank\<lparr>status := Str ''PAID'', dueDate := Str ''2024-01-01'', balance := Some 100\<rparr>,
        blank\<lparr>status := Str ''UNPAID'', balance := Some 40\<rparr>]" "[]" "[]" "[]"]
  by (simp add: isOverdue_def blank_def read_date_def june_2024_def num_or_def)

section \<open>Profit identities\<close>

text \<open>
  Claim C2. For all inputs, also empty ones, the gross profit is the revenue minus the
  cost of goods sold and the net profit is the gross profit minus the total expenses,
  where the revenue, the cost of goods sold and the total expenses are the sums over the
  records with an absent number read as 0. On empty inputs every numeric metric is 0,
  the three rates are the string "0.0", and the breakdowns are empty.
\<close>

theorem profit_identities:
  "grossProfit (computePL parseDate now sales expenses returns)
     = revenue (computePL parseDate now sales expenses returns)
       - cogs (computePL parseDate now sales expenses returns)
   \<and> netProfit (computePL parseDate now sales expenses returns)
     = grossProfit (computePL parseDate now sales expenses returns)
       - totalExpenses (computePL parseDate now sales expenses returns)
   \<and> revenue (computePL parseDate now sales expenses returns)
     = (\<Sum>s\<leftarrow>sales. case total_f s of None \<Rightarrow> 0 | Some v \<Rightarrow> v)
   \<and> cogs (computePL parseDate now sales expenses returns)
     = (\<Sum>s\<leftarrow>sales. (case qty s of None \<Rightarrow> 0 | Some v \<Rightarrow> v)
                      * (case costPrice s of None \<Rightarrow> 0 | Some v \<Rightarrow> v))
   \<and> totalExpenses (computePL parseDate now sales expenses returns)
     = (\<Sum>e\<leftarrow>expenses. case amount e of None \<Rightarrow> 0 | Some v \<Rightarrow> v)
   \<and> computePL parseDate now [] [] []
     = \<lparr>revenue = 0, collected = 0, outstanding = 0, cogs = 0, grossProfit = 0,
        grossMargin = ''0.0'', totalExpenses = 0, netProfit = 0, netMargin = ''0.0'',
        collectionRate = ''0.0'', refunds = 0, overdueDebt = 0, upcomingDebt = 0,
        salesCount = 0, uniqueCustomers = 0, unitsSold = 0,
        statusCounts =
          [(''PAID'', Num 0), (''PARTIAL'', Num 0), (''UNPAID'', Num 0), (''OVERDUE'', Num 0)],
        categoryBreakdown = [], paymentMethods = [], expenseBreakdown = [],
        topCustomers = [], dailyTrend = [], computedAt = iso now\<rparr>"
proof -
  have e: "computePL parseDate now [] [] []
     = \<lparr>revenue = 0, collected = 0, outstanding = 0, cogs = 0, grossProfit = 0,
        grossMargin = ''0.0'', totalExpenses = 0, netProfit = 0, netMargin = ''0.0'',
        collectionRate = ''0.0'', refunds = 0, overdueDebt = 0, upcomingDebt = 0,
        salesCount = 0, uniqueCustomers = 0, unitsSold = 0,
        statusCounts =
          [(''PAID'', Num 0), (''PARTIAL'', Num 0), (''UNPAID'', Num 0), (''OVERDUE'', Num 0)],
        categoryBreakdown = [], paymentMethods = [], expenseBreakdown = [],
        topCustomers = [], dailyTrend = [], computedAt = iso now\<rparr>"
    by (simp add: computePL_def categorySorted_def categoryBreakdownObj_def
        paymentMethodsSorted_def paymentMethodsObj_def expenseSorted_def expenseByCategory_def
        topCustomersOf_def customerRevenue_def trendSorted_def dailyTrendObj_def
        statusCountsOf_def status_init_def entries_def sort_by_def)
  have s: "revenue (computePL parseDate now sales expenses returns)
     = (\<Sum>s\<leftarrow>sales. case total_f s of None \<Rightarrow> 0 | Some v \<Rightarrow> v)"
    "cogs (computePL parseDate now sales expenses returns)
     = (\<Sum>s\<leftarrow>sales. (case qty s of None \<Rightarrow> 0 | Some v \<Rightarrow> v)
                      * (case costPrice s of None \<Rightarrow> 0 | Some v \<Rightarrow> v))"
    "totalExpenses (computePL parseDate now sales expenses returns)
     = (\<Sum>e\<leftarrow>expenses. case amount e of None \<Rightarrow> 0 | Some v \<Rightarrow> v)"
    by (simp_all add: computePL_def Let_def foldl_add_sum num_or_zero)
  have g: "grossProfit (computePL parseDate now sales expenses returns)
     = revenue (computePL parseDate now sales expenses returns)
       - cogs (computePL parseDate now sales expenses returns)"
    "netProfit (computePL parseDate now sales expenses returns)
     = grossProfit (computePL parseDate now sales expenses returns)
       - totalExpenses (computePL parseDate now sales expenses returns)"
    by (simp_all add: computePL_def Let_def)
  from e s g show ?thesis by blast
qed

theorem profit_identities_witness:
  "revenue (computePL read_date june_2024
      [blank\<lparr>total_f := Some 1000, paid := Some 1000, qty := Some 2, costPrice := Some 200,
             category := Str ''A'', status := Str ''PAID''\<rparr>]
      [\<lparr>exp_category = Str ''Rent'', amount = Some 150\<rparr>] []) = 1000
   \<and> cogs (computePL read_date june_2024
      [blank\<lparr>total_f := Some 1000, paid := Some 1000, qty := Some 2, costPrice := Some 200,
             category := Str ''A'', status := Str ''PAID''\<rparr>]
      [\<lparr>exp_category = Str ''Rent'', amount = Some 150\<rparr>] []) = 400
   \<and> grossProfit (computePL read_date june_2024
      [blank\<lparr>total_f := Some 1000, paid := Some 1000, qty := Some 2, costPrice := Some 200,
             category := Str ''A'', status := Str ''PAID''\<rparr>]
      [\<lparr>exp_category = Str ''Rent'', amount = Some 150\<rparr>] []) = 600
   \<and> totalExpenses (computePL read_date june_2024
      [blank\<lparr>total_f := Some 1000, paid := Some 1000, qty := Some 2, costPrice := Some 200,
             category := Str ''A'', status := Str ''PAID''\<rparr>]
      [\<lparr>exp_category = Str ''Rent'', amount = Some 150\<rparr>] []) = 150
   \<and> netProfit (computePL read_date june_2024
      [blank\<lparr>total_f := Some 1000, paid := Some 1000, qty := Some 2, costPrice := Some 200,
             category := Str ''A'', status := Str ''PAID''\<rparr>]
      [\<lparr>exp_category = Str ''Rent'', amount = Some 150\<rparr>] []) = 450
   \<and> grossMargin (computePL read_date june_2024 [] [] []) = ''0.0''
   \<and> netMargin (computePL read_date june_2024 [] [] []) = ''0.0''
   \<and> collectionRate (computePL read_date june_2024 [] [] []) = ''0.0''"
  using profit_identities [of read_date june_2024
      "[blank\<lparr>total_f := Some 1000, paid := Some 1000, qty := Some 2, costPrice := Some 200,
              category := Str ''A'', status := Str ''PAID''\<rparr>]"
      "[\<lparr>exp_category = Str ''Rent'', amount = Some 150\<rparr>]" "[]"]
  by (simp add: blank_def)

section \<open>Breakdowns and totals\<close>




section \<open>Fallback labels\<close>




section \<open>Daily trend\<close>

text \<open>
  Claim C5. The daily trend groups the sales by the first ten characters of their
  timestamp (the ISO day): the sales of one day make one bucket, whose revenue and profit
  (total minus quantity times cost price) are the sums over the sales of that day, and
  the buckets are in strictly ascending lexicographic order of the day. The days that
  get a bucket are the non-empty ones that are not the name of a member every object
  inherits; a day of digits and hyphens never is such a name, so that for ISO days the
  buckets are the non-empty days of the sales.
\<close>

theorem daily_trend_buckets:
  "day_of s = take 10 (case date s of Str d \<Rightarrow> d | _ \<Rightarrow> [])
   \<and> sorted_wrt (<) (map t_date (dailyTrend (computePL parseDate now sales expenses returns)))
   \<and> set (map t_date (dailyTrend (computePL parseDate now sales expenses returns)))
     = day_of ` set sales - {[]} - set inherited_keys
   \<and> (\<forall>row \<in> set (dailyTrend (computePL parseDate now sales expenses returns)).
        t_revenue row = (\<Sum>s\<leftarrow>filter (\<lambda>s. day_of s = t_date row) sales. num (total_f s))
        \<and> t_profit row = (\<Sum>s\<leftarrow>filter (\<lambda>s. day_of s = t_date row) sales.
                             num (total_f s) - num (qty s) * num (costPrice s)))
   \<and> (\<forall>d. (\<forall>c \<in> set d. c \<in> set ''0123456789-'') \<longrightarrow> d \<notin> set inherited_keys)
   \<and> ((\<forall>s \<in> set sales. \<forall>c \<in> set (day_of s). c \<in> set ''0123456789-'') \<longrightarrow>
        set (map t_date (dailyTrend (computePL parseDate now sales expenses returns)))
        = day_of ` set sales - {[]})"
proof -
  have d: "day_of s = take 10 (case date s of Str d \<Rightarrow> d | _ \<Rightarrow> [])"
    by (cases "date s") (simp_all add: day_of_def str_or_def)
  have t: "dailyTrend (computePL parseDate now sales expenses returns) = trendSorted sales"
    by (simp add: computePL_def Let_def)
  have r: "\<forall>row \<in> set (trendSorted sales).
        t_revenue row = (\<Sum>s\<leftarrow>filter (\<lambda>s. day_of s = t_date row) sales. num (total_f s))
        \<and> t_profit row = (\<Sum>s\<leftarrow>filter (\<lambda>s. day_of s = t_date row) sales.
                             num (total_f s) - num (qty s) * num (costPrice s))"
    using trend_rows [of _ sales] by blast
  have i: "\<forall>d. (\<forall>c \<in> set d. c \<in> set ''0123456789-'') \<longrightarrow> d \<notin> set inherited_keys"
    using inherited_first by (metis hd_in_set)
  have j: "(\<forall>s \<in> set sales. \<forall>c \<in> set (day_of s). c \<in> set ''0123456789-'') \<longrightarrow>
        set (map t_date (trendSorted sales)) = day_of ` set sales - {[]}"
  proof
    assume "\<forall>s \<in> set sales. \<forall>c \<in> set (day_of s). c \<in> set ''0123456789-''"
    with i have "\<forall>s \<in> set sales. day_of s \<notin> set inherited_keys"
      by blast
    then show "set (map t_date (trendSorted sales)) = day_of ` set sales - {[]}"
      unfolding trend_dates by auto
  qed
  show ?thesis
    unfolding t by (intro conjI d trend_sorted trend_dates r i j)
qed

theorem daily_trend_buckets_witness:
  "day_of (blank\<lparr>total_f := Some 10, date := Str ''2024-03-01T08:00''\<rparr>) = ''2024-03-01''
   \<and> day_of (blank\<lparr>total_f := Some 5, qty := Some 1, costPrice := Some 2,
                   date := Str ''2024-03-01T23:00''\<rparr>) = ''2024-03-01''
   \<and> dailyTrend (computePL read_date june_2024
       [blank\<lparr>total_f := Some 10, date := Str ''2024-03-02T08:00''\<rparr>,
        blank\<lparr>total_f := Some 10, date := Str ''2024-03-01T08:00''\<rparr>,
        blank\<lparr>total_f := Some 5, qty := Some 1, costPrice := Some 2,
              date := Str ''2024-03-01T23:00''\<rparr>] [] [])
     = [\<lparr>t_revenue = 15, t_profit = 13, t_date = ''2024-03-01''\<rparr>,
        \<lparr>t_revenue = 10, t_profit = 10, t_date = ''2024-03-02''\<rparr>]
   \<and> sorted_wrt (<) [''2024-03-01'', ''2024-03-02'']
   \<and> ''2024-03-01'' \<notin> set inherited_keys
   \<and> list_all (\<lambda>c. c \<in> set ''0123456789-'') ''2024-03-01''
   \<and> list_all (\<lambda>c. c \<in> set ''0123456789-'') ''2024-03-02''"
proof -
  have e: "day_of (blank\<lparr>total_f := Some 10, date := Str ''2024-03-01T08:00''\<rparr>) = ''2024-03-01''"
    "day_of (blank\<lparr>total_f := Some 5, qty := Some 1, costPrice := Some 2,
                   date := Str ''2024-03-01T23:00''\<rparr>) = ''2024-03-01''"
    "dailyTrend (computePL read_date june_2024
       [blank\<lparr>total_f := Some 10, date := Str ''2024-03-02T08:00''\<rparr>,
        blank\<lparr>total_f := Some 10, date := Str ''2024-03-01T08:00''\<rparr>,
        blank\<lparr>total_f := Some 5, qty := Some 1, costPrice := Some 2,
              date := Str ''2024-03-01T23:00''\<rparr>] [] [])
     = [\<lparr>t_revenue = 15, t_profit = 13, t_date = ''2024-03-01''\<rparr>,
        \<lparr>t_revenue = 10, t_profit = 10, t_date = ''2024-03-02''\<rparr>]"
    "''2024-03-01'' \<notin> set inherited_keys"
    "list_all (\<lambda>c. c \<in> set ''0123456789-'') ''2024-03-01''"
    "list_all (\<lambda>c. c \<in> set ''0123456789-'') ''2024-03-02''"
    by (simp_all add: engine_defs)
  show ?thesis
    using daily_trend_buckets [of "blank\<lparr>total_f := Some 10, date := Str ''2024-03-01T08:00''\<rparr>"
       read_date june_2024
       "[blank\<lparr>total_f := Some 10, date := Str ''2024-03-02T08:00''\<rparr>,
        blank\<lparr>total_f := Some 10, date := Str ''2024-03-01T08:00''\<rparr>,
        blank\<lparr>total_f := Some 5, qty := Some 1, costPrice := Some 2,
              date := Str ''2024-03-01T23:00''\<rparr>]" "[]" "[]"]
    unfolding e by simp
qed

section \<open>Top customers\<close>

text \<open>
  Claim C6. The top customers are to be the sales grouped by customer name, a missing
  name counting as Walk-in, with the sums of the totals, of the paid amounts and of the
  balances and the number of sales per customer, in descending order of revenue and cut
  to ten. The aggregator does this for the names that are not members every object
  inherits: among them no group left out has more revenue than a group kept, and fifteen
  customers with fifteen different revenues give ten rows. A customer whose name is such
  a member gets no group: one sale of 100 to the customer \<^verbatim>\<open>toString\<close> gives no row.
\<close>

theorem top_customers_ranked:
  "length (topCustomers (computePL parseDate now sales expenses returns))
     = min 10 (card ((\<lambda>s. str_or (customer s) ''Walk-in'') ` set sales - set inherited_keys))
   \<and> sorted_wrt (\<lambda>a b. u_revenue b \<le> u_revenue a)
       (topCustomers (computePL parseDate now sales expenses returns))
   \<and> distinct (map u_name (topCustomers (computePL parseDate now sales expenses returns)))
   \<and> (\<forall>row \<in> set (topCustomers (computePL parseDate now sales expenses returns)).
        u_name row \<in> (\<lambda>s. str_or (customer s) ''Walk-in'') ` set sales - set inherited_keys
        \<and> u_revenue row
          = (\<Sum>s\<leftarrow>filter (\<lambda>s. str_or (customer s) ''Walk-in'' = u_name row) sales. num (total_f s))
        \<and> u_paid row
          = (\<Sum>s\<leftarrow>filter (\<lambda>s. str_or (customer s) ''Walk-in'' = u_name row) sales. num (paid s))
        \<and> u_balance row
          = (\<Sum>s\<leftarrow>filter (\<lambda>s. str_or (customer s) ''Walk-in'' = u_name row) sales. num (balance s))
        \<and> u_count row
          = length (filter (\<lambda>s. str_or (customer s) ''Walk-in'' = u_name row) sales))
   \<and> (\<forall>s \<in> set sales. \<forall>row \<in> set (topCustomers (computePL parseDate now sales expenses returns)).
        str_or (customer s) ''Walk-in'' \<notin> set inherited_keys
        \<and> str_or (customer s) ''Walk-in''
          \<notin> set (map u_name (topCustomers (computePL parseDate now sales expenses returns)))
        \<longrightarrow> (\<Sum>r\<leftarrow>filter (\<lambda>r. str_or (customer r) ''Walk-in'' = str_or (customer s) ''Walk-in'')
                        sales. num (total_f r)) \<le> u_revenue row)
   \<and> str_or Undefined ''Walk-in'' = ''Walk-in''
   \<and> str_or Null ''Walk-in'' = ''Walk-in''
   \<and> str_or (Str []) ''Walk-in'' = ''Walk-in''
   \<and> topCustomers (computePL parseDate now
        [blank\<lparr>customer := Str ''toString'', total_f := Some 100\<rparr>] [] []) = []"
proof -
  have t: "topCustomers (computePL parseDate now ss es rs) = topCustomersOf ss" for ss es rs
    by (simp add: computePL_def Let_def)
  have d: "str_or Undefined ''Walk-in'' = ''Walk-in''" "str_or Null ''Walk-in'' = ''Walk-in''"
    "str_or (Str []) ''Walk-in'' = ''Walk-in''"
    by (simp_all add: str_or_def)
  have r: "\<forall>row \<in> set (topCustomersOf sales).
        u_name row \<in> (\<lambda>s. str_or (customer s) ''Walk-in'') ` set sales - set inherited_keys
        \<and> u_revenue row
          = (\<Sum>s\<leftarrow>filter (\<lambda>s. str_or (customer s) ''Walk-in'' = u_name row) sales. num (total_f s))
        \<and> u_paid row
          = (\<Sum>s\<leftarrow>filter (\<lambda>s. str_or (customer s) ''Walk-in'' = u_name row) sales. num (paid s))
        \<and> u_balance row
          = (\<Sum>s\<leftarrow>filter (\<lambda>s. str_or (customer s) ''Walk-in'' = u_name row) sales. num (balance s))
        \<and> u_count row
          = length (filter (\<lambda>s. str_or (customer s) ''Walk-in'' = u_name row) sales)"
    by (intro ballI) (rule top_rows)
  have m: "\<forall>s \<in> set sales. \<forall>row \<in> set (topCustomersOf sales).
        str_or (customer s) ''Walk-in'' \<notin> set inherited_keys
        \<and> str_or (customer s) ''Walk-in'' \<notin> set (map u_name (topCustomersOf sales))
        \<longrightarrow> (\<Sum>r\<leftarrow>filter (\<lambda>r. str_or (customer r) ''Walk-in'' = str_or (customer s) ''Walk-in'')
                        sales. num (total_f r)) \<le> u_revenue row"
    by (intro ballI impI) (rule top_dominates, simp_all)
  have e: "topCustomersOf [blank\<lparr>customer := Str ''toString'', total_f := Some 100\<rparr>] = []"
    by (simp add: engine_defs)
  show ?thesis
    unfolding t
    by (intro conjI top_length top_sorted top_distinct d r m e)
qed

theorem top_customers_ranked_witness:
  "card ((\<lambda>s. str_or (customer s) ''Walk-in'') ` set fifteen_sales - set inherited_keys) = 15
   \<and> length (topCustomers (computePL read_date june_2024 fifteen_sales [] [])) = 10
   \<and> map u_name (topCustomers (computePL read_date june_2024 fifteen_sales [] []))
     = [''Brian'', ''Jamil'', ''Farid'', ''Lydia'', ''David'', ''Nora'', ''Hatim'', ''Okello'',
        ''Amina'', ''Irene'']
   \<and> map u_revenue (topCustomers (computePL read_date june_2024 fifteen_sales [] []))
     = [150, 140, 130, 120, 110, 100, 90, 80, 70, 60]
   \<and> map u_count (topCustomers (computePL read_date june_2024 fifteen_sales [] []))
     = [1, 1, 1, 1, 1, 1, 1, 1, 1, 1]
   \<and> ''Carol'' \<notin> set inherited_keys
   \<and> ''Carol'' \<notin> set (map u_name (topCustomers (computePL read_date june_2024 fifteen_sales [] [])))"
proof -
  have e: "topCustomersOf fifteen_sales
     = map (\<lambda>(c, t). \<lparr>u_revenue = t, u_paid = 1, u_balance = 0, u_count = 1, u_name = c\<rparr>)
        [(''Brian'', 150), (''Jamil'', 140), (''Farid'', 130), (''Lydia'', 120), (''David'', 110),
         (''Nora'', 100), (''Hatim'', 90), (''Okello'', 80), (''Amina'', 70), (''Irene'', 60)]"
    by code_simp
  have t: "topCustomers (computePL read_date june_2024 fifteen_sales [] [])
           = topCustomersOf fifteen_sales"
    by (simp add: computePL_def Let_def)
  have n: "filter (\<lambda>k. k \<notin> set inherited_keys)
             (map (\<lambda>s. str_or (customer s) ''Walk-in'') fifteen_sales)
     = [''Amina'', ''Brian'', ''Carol'', ''David'', ''Esther'', ''Farid'', ''Grace'', ''Hatim'',
        ''Irene'', ''Jamil'', ''Kato'', ''Lydia'', ''Musa'', ''Nora'', ''Okello'']"
    by code_simp
  have "(\<lambda>s. str_or (customer s) ''Walk-in'') ` set fifteen_sales - set inherited_keys
        = set (filter (\<lambda>k. k \<notin> set inherited_keys)
                 (map (\<lambda>s. str_or (customer s) ''Walk-in'') fifteen_sales))"
    by auto
  then have c: "card ((\<lambda>s. str_or (customer s) ''Walk-in'') ` set fifteen_sales - set inherited_keys)
                = 15"
    unfolding n by (simp add: card_insert_if)
  have k: "''Carol'' \<notin> set inherited_keys"
    by (simp add: inherited_keys_def)
  have "length (topCustomers (computePL read_date june_2024 fifteen_sales [] []))
        = min 10 (card ((\<lambda>s. str_or (customer s) ''Walk-in'') ` set fifteen_sales
                         - set inherited_keys))"
    using top_customers_ranked [of read_date june_2024 fifteen_sales "[]" "[]"]
    by (rule conjunct1)
  then have l: "length (topCustomers (computePL read_date june_2024 fifteen_sales [] [])) = 10"
    unfolding c by simp
  have r: "map u_name (topCustomersOf fifteen_sales)
     = [''Brian'', ''Jamil'', ''Farid'', ''Lydia'', ''David'', ''Nora'', ''Hatim'', ''Okello'',
        ''Amina'', ''Irene'']"
    "map u_revenue (topCustomersOf fifteen_sales) = [150, 140, 130, 120, 110, 100, 90, 80, 70, 60]"
    "map u_count (topCustomersOf fifteen_sales) = [1, 1, 1, 1, 1, 1, 1, 1, 1, 1]"
    unfolding e by simp_all
  have m: "''Carol'' \<notin> set (map u_name (topCustomersOf fifteen_sales))"
    unfolding r by simp
  from c l k r m show ?thesis
    unfolding t by simp
qed

section \<open>Stock counts\<close>

text \<open>
  Claim C7. The low stock count is to take the reorder level 5 only for an item that has
  none. The dashboard counts the items whose stock is at most their reorder level, with
  every falsy reorder level (absent or 0) replaced by 5, and counts as out of stock the
  items whose stock is 0: an item with a stock of 3 and an explicit reorder level of 0 is
  counted as low on stock.
\<close>

theorem low_stock_zero_reorder_level:
  "k_lowStockCount (computeDashboardKPIs parseDate now sales expenses inventory)
     = length (filter (\<lambda>p. num (stock p)
                 \<le> (case reorderLevel p of None \<Rightarrow> 5 | Some l \<Rightarrow> if l = 0 then 5 else l)) inventory)
   \<and> k_outOfStockCount (computeDashboardKPIs parseDate now sales expenses inventory)
     = length (filter (\<lambda>p. num (stock p) = 0) inventory)
   \<and> k_lowStockCount (computeDashboardKPIs parseDate now [] []
      [\<lparr>stock = Some 3, reorderLevel = Some 0\<rparr>]) = 1
   \<and> k_outOfStockCount (computeDashboardKPIs parseDate now [] []
      [\<lparr>stock = Some 3, reorderLevel = Some 0\<rparr>]) = 0"
proof -
  have "num_or x 5 = (case x of None \<Rightarrow> 5 | Some l \<Rightarrow> if l = 0 then 5 else l)" for x
    by (simp add: num_or_def)
  then have g: "k_lowStockCount (computeDashboardKPIs parseDate now sales expenses inventory)
     = length (filter (\<lambda>p. num (stock p)
                 \<le> (case reorderLevel p of None \<Rightarrow> 5 | Some l \<Rightarrow> if l = 0 then 5 else l)) inventory)"
    "k_outOfStockCount (computeDashboardKPIs parseDate now sales expenses inventory)
     = length (filter (\<lambda>p. num (stock p) = 0) inventory)"
    by (simp_all add: computeDashboardKPIs_def Let_def)
  have e: "k_lowStockCount (computeDashboardKPIs parseDate now [] []
      [\<lparr>stock = Some 3, reorderLevel = Some 0\<rparr>]) = 1"
    "k_outOfStockCount (computeDashboardKPIs parseDate now [] []
      [\<lparr>stock = Some 3, reorderLevel = Some 0\<rparr>]) = 0"
    by (simp_all add: computeDashboardKPIs_def num_or_def)
  from g e show ?thesis by simp
qed

section \<open>Status counts\<close>

text \<open>
  Claim C8. The status counts are to hold the four keys PAID, PARTIAL, UNPAID and
  OVERDUE and, for every sale, one more under its own status, so that they add up to the
  number of sales. The aggregator always has the four keys; when no status is the name
  of a member every object inherits, each entry is the number of sales with that status
  and the entries add up to the number of sales. A sale with the status \<^verbatim>\<open>__proto__\<close> is
  not counted under any key, and the status \<^verbatim>\<open>constructor\<close> gets a string, not a count.
\<close>

theorem status_counts_tally:
  "{''PAID'', ''PARTIAL'', ''UNPAID'', ''OVERDUE''}
     \<subseteq> fst ` set (statusCounts (computePL parseDate now sales expenses returns))
   \<and> fst ` set (statusCounts (computePL parseDate now sales expenses returns))
     = {''PAID'', ''PARTIAL'', ''UNPAID'', ''OVERDUE''}
       \<union> ((\<lambda>s. key_of (status s)) ` set sales - {''__proto__''})
   \<and> distinct (map fst (statusCounts (computePL parseDate now sales expenses returns)))
   \<and> salesCount (computePL parseDate now sales expenses returns) = length sales
   \<and> ((\<forall>s \<in> set sales. key_of (status s) \<notin> set inherited_keys) \<longrightarrow>
        (\<forall>k \<in> fst ` set (statusCounts (computePL parseDate now sales expenses returns)).
           map_of (statusCounts (computePL parseDate now sales expenses returns)) k
           = Some (Num (of_nat (length (filter (\<lambda>s. key_of (status s) = k) sales)))))
        \<and> total_of (map snd (statusCounts (computePL parseDate now sales expenses returns)))
          = Some (of_nat (salesCount (computePL parseDate now sales expenses returns))))
   \<and> statusCounts (computePL parseDate now [blank\<lparr>status := Str ''__proto__''\<rparr>] [] [])
     = [(''PAID'', Num 0), (''PARTIAL'', Num 0), (''UNPAID'', Num 0), (''OVERDUE'', Num 0)]
   \<and> salesCount (computePL parseDate now [blank\<lparr>status := Str ''__proto__''\<rparr>] [] []) = 1
   \<and> statusCounts (computePL parseDate now [blank\<lparr>status := Str ''constructor''\<rparr>] [] [])
     = [(''PAID'', Num 0), (''PARTIAL'', Num 0), (''UNPAID'', Num 0), (''OVERDUE'', Num 0),
        (''constructor'', Text)]"
proof -
  have t: "statusCounts (computePL parseDate now ss es rs) = statusCountsOf ss" for ss es rs
    by (simp add: computePL_def Let_def)
  have c: "salesCount (computePL parseDate now ss es rs) = length ss" for ss es rs
    by (simp add: computePL_def Let_def)
  have s: "{''PAID'', ''PARTIAL'', ''UNPAID'', ''OVERDUE''} \<subseteq> fst ` set (statusCountsOf sales)"
    unfolding status_keys by (rule Un_upper1)
  have h: "(\<forall>s \<in> set sales. key_of (status s) \<notin> set inherited_keys) \<longrightarrow>
        (\<forall>k \<in> fst ` set (statusCountsOf sales).
           map_of (statusCountsOf sales) k
           = Some (Num (of_nat (length (filter (\<lambda>s. key_of (status s) = k) sales)))))
        \<and> total_of (map snd (statusCountsOf sales)) = Some (of_nat (length sales))"
  proof (intro impI conjI ballI)
    fix k
    assume "\<forall>s \<in> set sales. key_of (status s) \<notin> set inherited_keys"
      and "k \<in> fst ` set (statusCountsOf sales)"
    then show "map_of (statusCountsOf sales) k
           = Some (Num (of_nat (length (filter (\<lambda>s. key_of (status s) = k) sales))))"
      by (rule status_lookup)
  next
    assume "\<forall>s \<in> set sales. key_of (status s) \<notin> set inherited_keys"
    then show "total_of (map snd (statusCountsOf sales)) = Some (of_nat (length sales))"
      by (rule status_total)
  qed
  have e: "statusCountsOf [blank\<lparr>status := Str ''__proto__''\<rparr>]
     = [(''PAID'', Num 0), (''PARTIAL'', Num 0), (''UNPAID'', Num 0), (''OVERDUE'', Num 0)]"
    "statusCountsOf [blank\<lparr>status := Str ''constructor''\<rparr>]
     = [(''PAID'', Num 0), (''PARTIAL'', Num 0), (''UNPAID'', Num 0), (''OVERDUE'', Num 0),
        (''constructor'', Text)]"
    by (simp_all add: engine_defs)
  have l: "length [blank\<lparr>status := Str ''__proto__''\<rparr>] = 1"
    by simp
  show ?thesis
    unfolding t c
    by (intro conjI s status_keys status_distinct h e l refl)
qed

theorem status_counts_tally_witness:
  "''PAID'' \<notin> set inherited_keys \<and> ''REFUNDED'' \<notin> set inherited_keys
   \<and> ''undefined'' \<notin> set inherited_keys
   \<and> statusCounts (computePL read_date june_2024
      [blank\<lparr>status := Str ''PAID''\<rparr>, blank\<lparr>status := Str ''REFUNDED''\<rparr>,
       blank\<lparr>status := Str ''PAID''\<rparr>, blank] [] [])
     = [(''PAID'', Num 2), (''PARTIAL'', Num 0), (''UNPAID'', Num 0), (''OVERDUE'', Num 0),
        (''REFUNDED'', Num 1), (''undefined'', Num 1)]
   \<and> total_of (map snd (statusCounts (computePL read_date june_2024
      [blank\<lparr>status := Str ''PAID''\<rparr>, blank\<lparr>status := Str ''REFUNDED''\<rparr>,
       blank\<lparr>status := Str ''PAID''\<rparr>, blank] [] []))) = Some 4
   \<and> salesCount (computePL read_date june_2024
      [blank\<lparr>status := Str ''PAID''\<rparr>, blank\<lparr>status := Str ''REFUNDED''\<rparr>,
       blank\<lparr>status := Str ''PAID''\<rparr>, blank] [] []) = 4"
proof -
  let ?sales = "[blank\<lparr>status := Str ''PAID''\<rparr>, blank\<lparr>status := Str ''REFUNDED''\<rparr>,
       blank\<lparr>status := Str ''PAID''\<rparr>, blank]"
  have k: "''PAID'' \<notin> set inherited_keys" "''REFUNDED'' \<notin> set inherited_keys"
    "''undefined'' \<notin> set inherited_keys"
    by (simp_all add: inherited_keys_def)
  have h: "\<forall>s \<in> set ?sales. key_of (status s) \<notin> set inherited_keys"
    using k by (simp add: blank_def)
  have e: "statusCounts (computePL read_date june_2024 ?sales [] [])
     = [(''PAID'', Num 2), (''PARTIAL'', Num 0), (''UNPAID'', Num 0), (''OVERDUE'', Num 0),
        (''REFUNDED'', Num 1), (''undefined'', Num 1)]"
    by (simp add: engine_defs)
  have "total_of (map snd (statusCounts (computePL read_date june_2024 ?sales [] [])))
        = Some (of_nat (salesCount (computePL read_date june_2024 ?sales [] [])))
        \<and> salesCount (computePL read_date june_2024 ?sales [] []) = length ?sales"
    using status_counts_tally [of read_date june_2024 ?sales "[]" "[]"] h
    by blast
  then have "total_of (map snd (statusCounts (computePL read_date june_2024 ?sales [] []))) = Some 4"
    "salesCount (computePL read_date june_2024 ?sales [] []) = 4"
    by simp_all
  with k e show ?thesis
    by simp
qed

section \<open>Unique customers\<close>

text \<open>
  Claim C9. The number of unique customers is to count a sale without a customer name
  under the default name Walk-in. The aggregator counts the distinct values of the
  customer field as they are: a sale of the customer Walk-in and a sale without a
  customer field count as two customers, while the top customers list holds the one
  group Walk-in for them.
\<close>

theorem unique_customers_no_default:
  "uniqueCustomers (computePL parseDate now sales expenses returns) = card (customer ` set sales)
   \<and> uniqueCustomers (computePL parseDate now [blank\<lparr>customer := Str ''Walk-in''\<rparr>, blank] [] []) = 2
   \<and> map u_name (topCustomers (computePL parseDate now
        [blank\<lparr>customer := Str ''Walk-in''\<rparr>, blank] [] [])) = [''Walk-in'']"
proof -
  have "uniqueCustomers (computePL parseDate now sales expenses returns) = card (customer ` set sales)"
    by (simp add: computePL_def Let_def length_remdups_card_conv)
  moreover have "uniqueCustomers (computePL parseDate now [blank\<lparr>customer := Str ''Walk-in''\<rparr>, blank] [] []) = 2
   \<and> map u_name (topCustomers (computePL parseDate now
        [blank\<lparr>customer := Str ''Walk-in''\<rparr>, blank] [] [])) = [''Walk-in'']"
    by (simp add: engine_defs)
  ultimately show ?thesis by simp
qed

section \<open>Undated sales\<close>




end
